theory Spec2Isabelle
  imports
    Complex_Main
    "HOL-Library.Sublist"
    "HOL-Library.FSet"
    "HOL-Library.Finite_Map"
begin

section \<open>Common data\<close>

text \<open>
  Python \<open>bytes\<close> are sequences of 8-bit values; they are modelled as lists of
  \<^typ>\<open>char\<close> (an 8-bit type), so that byte literals can be written as strings.
  Exceptions are values of \<open>error\<close>; a function that can raise returns \<open>error + 'a\<close>.
\<close>

type_synonym bytes = "char list"

datatype error =
    RuntimeError string
  | ValueError string
  | UnicodeEncodeError
  | OverflowError

text \<open>
  Python slicing \<open>data[:n]\<close> and \<open>data[n:]\<close> for an \<open>int\<close> bound: a negative bound counts
  from the end, and bounds outside the sequence are clipped.
\<close>

definition slice_to :: "bytes \<Rightarrow> int \<Rightarrow> bytes" where
  "slice_to data n =
     (if n < 0 then take (length data - nat (- n)) data else take (nat n) data)"

definition slice_from :: "bytes \<Rightarrow> int \<Rightarrow> bytes" where
  "slice_from data n =
     (if n < 0 then drop (length data - nat (- n)) data else drop (nat n) data)"

text \<open>Python \<open>pat in data\<close> on bytes: \<open>pat\<close> occurs as a contiguous run of \<open>data\<close>.\<close>

fun contains_bytes :: "bytes \<Rightarrow> bytes \<Rightarrow> bool" where
  "contains_bytes pat [] = (pat = [])"
| "contains_bytes pat (x # xs) = (prefix pat (x # xs) \<or> contains_bytes pat xs)"


section \<open>pty/fake.py: the in-memory PTY backend\<close>

record FakePTYBackend =
  input_buffer :: bytes
  output_queue :: "bytes list"
  alive :: bool
  rows :: int
  cols :: int
  spawn_count :: int
  resize_count :: int
  last_cmd :: "string list"
  last_env :: "(string \<times> string) list"
  last_cwd :: "string option"

definition fake_init :: FakePTYBackend where
  "fake_init =
     \<lparr>input_buffer = [], output_queue = [], alive = False, rows = 30, cols = 120,
      spawn_count = 0, resize_count = 0, last_cmd = [], last_env = [], last_cwd = None\<rparr>"

definition fake_spawn ::
  "FakePTYBackend \<Rightarrow> string list \<Rightarrow> (string \<times> string) list \<Rightarrow> string option \<Rightarrow> int \<Rightarrow> int
     \<Rightarrow> error + FakePTYBackend" where
  "fake_spawn b cmd env cwd r c =
     (if alive b then Inl (RuntimeError ''PTY already spawned'')
      else Inr (b\<lparr>rows := r, cols := c, alive := True, spawn_count := spawn_count b + 1,
                  last_cmd := cmd, last_env := env, last_cwd := cwd\<rparr>))"

text \<open>
  \<open>read(size)\<close>: nothing when the backend is dead or the queue is empty; otherwise the
  oldest chunk is popped, and when it is longer than \<open>size\<close> its tail is pushed back at
  the front. The result is the bytes returned together with the updated backend.
\<close>

definition fake_read :: "FakePTYBackend \<Rightarrow> int \<Rightarrow> bytes \<times> FakePTYBackend" where
  "fake_read b sz =
     (if \<not> alive b \<or> output_queue b = [] then ([], b)
      else
        let data = hd (output_queue b);
            q = tl (output_queue b)
        in if int (length data) > sz
           then (slice_to data sz, b\<lparr>output_queue := slice_from data sz # q\<rparr>)
           else (data, b\<lparr>output_queue := q\<rparr>))"

definition fake_write :: "FakePTYBackend \<Rightarrow> bytes \<Rightarrow> FakePTYBackend" where
  "fake_write b data = (if \<not> alive b then b else b\<lparr>input_buffer := input_buffer b @ data\<rparr>)"

definition fake_resize :: "FakePTYBackend \<Rightarrow> int \<Rightarrow> int \<Rightarrow> FakePTYBackend" where
  "fake_resize b r c = b\<lparr>rows := r, cols := c, resize_count := resize_count b + 1\<rparr>"

definition fake_is_alive :: "FakePTYBackend \<Rightarrow> bool" where
  "fake_is_alive b = alive b"

definition fake_close :: "FakePTYBackend \<Rightarrow> FakePTYBackend" where
  "fake_close b = b\<lparr>alive := False\<rparr>"

definition inject_output :: "FakePTYBackend \<Rightarrow> bytes \<Rightarrow> FakePTYBackend" where
  "inject_output b data = b\<lparr>output_queue := output_queue b @ [data]\<rparr>"

definition get_input :: "FakePTYBackend \<Rightarrow> bytes \<times> FakePTYBackend" where
  "get_input b = (input_buffer b, b\<lparr>input_buffer := []\<rparr>)"

definition kill :: "FakePTYBackend \<Rightarrow> FakePTYBackend" where
  "kill b = b\<lparr>alive := False\<rparr>"

text \<open>
  A test drives the backend by a sequence of calls. \<open>run_ops\<close> performs them in order and
  collects what every \<open>read\<close> returned; \<open>injected\<close> lists what the \<open>inject_output\<close> calls
  of the sequence supplied.
\<close>

datatype fake_op = Read int | Inject bytes

fun run_ops :: "FakePTYBackend \<Rightarrow> fake_op list \<Rightarrow> bytes list \<times> FakePTYBackend" where
  "run_ops b [] = ([], b)"
| "run_ops b (Read sz # ops) =
     (let (data, b1) = fake_read b sz;
          (out, b2) = run_ops b1 ops
      in (data # out, b2))"
| "run_ops b (Inject data # ops) = run_ops (inject_output b data) ops"

fun injected :: "fake_op list \<Rightarrow> bytes list" where
  "injected [] = []"
| "injected (Read sz # ops) = injected ops"
| "injected (Inject data # ops) = data # injected ops"

text \<open>Reading \<open>n\<close> times in a row with the same bound.\<close>

fun read_times :: "nat \<Rightarrow> FakePTYBackend \<Rightarrow> int \<Rightarrow> bytes list \<times> FakePTYBackend" where
  "read_times 0 b sz = ([], b)"
| "read_times (Suc n) b sz =
     (let (data, b1) = fake_read b sz;
          (out, b2) = read_times n b1 sz
      in (data # out, b2))"

text \<open>
  An upper bound on the number of reads (with a positive bound) that empty the queue:
  every read either removes a chunk or shortens the oldest one.
\<close>

definition pending :: "FakePTYBackend \<Rightarrow> nat" where
  "pending b = length (concat (output_queue b)) + length (output_queue b)"


section \<open>The PTY manager\<close>

text \<open>
  Modelled from the spec: \<open>SecurePTYManager\<close> (porterminal/pty/manager.py) is not among
  the sources. The spec describes it as a wrapper of one backend with a uniform
  lifecycle (read, write, resize, close, is_alive); here it wraps the in-memory
  backend and forwards each call to it.
\<close>

record SecurePTYManager =
  backend :: FakePTYBackend

definition pty_is_alive :: "SecurePTYManager \<Rightarrow> bool" where
  "pty_is_alive m = fake_is_alive (backend m)"

definition pty_close :: "SecurePTYManager \<Rightarrow> SecurePTYManager" where
  "pty_close m = m\<lparr>backend := fake_close (backend m)\<rparr>"

definition pty_write :: "SecurePTYManager \<Rightarrow> bytes \<Rightarrow> SecurePTYManager" where
  "pty_write m data = m\<lparr>backend := fake_write (backend m) data\<rparr>"


section \<open>session.py: terminal sessions and their replay buffer\<close>

text \<open>
  A socket is an object of the web framework; the model keeps its identity only.
  Timestamps are clock readings in microseconds.
\<close>

type_synonym WebSocket = nat
type_synonym datetime = int

definition MAX_SESSIONS_PER_USER :: nat where
  "MAX_SESSIONS_PER_USER = 10"

definition MAX_TOTAL_SESSIONS :: nat where
  "MAX_TOTAL_SESSIONS = 100"

definition OUTPUT_BUFFER_MAX_BYTES :: int where
  "OUTPUT_BUFFER_MAX_BYTES = 1000000"

text \<open>The bytes \<open>ESC [ 2 J\<close> (erase entire display).\<close>

definition ERASE_DISPLAY :: bytes where
  "ERASE_DISPLAY = [CHR 0x1B, CHR ''['', CHR ''2'', CHR ''J'']"

record TerminalSession =
  session_id :: string
  user_id :: string
  pty_manager :: SecurePTYManager
  shell_id :: string
  created_at :: datetime
  last_activity :: datetime
  output_buffer :: "bytes list"
  output_buffer_size :: int
  websocket :: "WebSocket option"
  is_connected :: bool

text \<open>The dataclass constructor with its defaults; both timestamps read the clock.\<close>

definition new_session ::
  "string \<Rightarrow> string \<Rightarrow> SecurePTYManager \<Rightarrow> string \<Rightarrow> datetime \<Rightarrow> TerminalSession" where
  "new_session sid uid pty shell now =
     \<lparr>session_id = sid, user_id = uid, pty_manager = pty, shell_id = shell,
      created_at = now, last_activity = now, output_buffer = [], output_buffer_size = 0,
      websocket = None, is_connected = False\<rparr>"

text \<open>
  The trimming loop of \<open>add_to_buffer\<close>:
  \<^verbatim>\<open>while self.output_buffer_size > OUTPUT_BUFFER_MAX_BYTES and self.output_buffer\<close>
  pops the oldest chunk and subtracts its length.
\<close>

fun trim_buffer :: "bytes list \<Rightarrow> int \<Rightarrow> bytes list \<times> int" where
  "trim_buffer [] sz = ([], sz)"
| "trim_buffer (removed # rest) sz =
     (if sz > OUTPUT_BUFFER_MAX_BYTES
      then trim_buffer rest (sz - int (length removed))
      else (removed # rest, sz))"

text \<open>
  \<open>add_to_buffer\<close> in its two phases: \<open>append_chunk\<close> is the body up to the trimming loop
  (the clear on an erase sequence, the append, the size update), \<open>add_to_buffer\<close> runs
  the loop on its result.
\<close>

definition append_chunk :: "TerminalSession \<Rightarrow> bytes \<Rightarrow> TerminalSession" where
  "append_chunk s data =
     (let s1 = (if contains_bytes ERASE_DISPLAY data
                then s\<lparr>output_buffer := [], output_buffer_size := 0\<rparr> else s)
      in s1\<lparr>output_buffer := output_buffer s1 @ [data],
             output_buffer_size := output_buffer_size s1 + int (length data)\<rparr>)"

definition add_to_buffer :: "TerminalSession \<Rightarrow> bytes \<Rightarrow> TerminalSession" where
  "add_to_buffer s data =
     (let s2 = append_chunk s data;
          (buf, sz) = trim_buffer (output_buffer s2) (output_buffer_size s2)
      in s2\<lparr>output_buffer := buf, output_buffer_size := sz\<rparr>)"

definition get_buffered_output :: "TerminalSession \<Rightarrow> bytes" where
  "get_buffered_output s = concat (output_buffer s)"

definition clear_buffer :: "TerminalSession \<Rightarrow> TerminalSession" where
  "clear_buffer s = s\<lparr>output_buffer := [], output_buffer_size := 0\<rparr>"

definition touch :: "TerminalSession \<Rightarrow> datetime \<Rightarrow> TerminalSession" where
  "touch s now = s\<lparr>last_activity := now\<rparr>"

text \<open>
  The words of the specification about the replay buffer: the total size of a list of
  chunks, and the most recent chunks whose total size fits under a cap, that is the
  longest suffix of the arrival sequence whose total size is at most the cap.
\<close>

definition total_size :: "bytes list \<Rightarrow> int" where
  "total_size chunks = sum_list (map (\<lambda>c. int (length c)) chunks)"

fun fitting_suffix :: "int \<Rightarrow> bytes list \<Rightarrow> bytes list" where
  "fitting_suffix cap [] = []"
| "fitting_suffix cap (c # cs) =
     (if total_size (c # cs) \<le> cap then c # cs else fitting_suffix cap cs)"

text \<open>
  The chunks that arrived from the last chunk carrying the erase sequence on (all of
  them when no chunk carries it).
\<close>

fun since_last_erase :: "bytes list \<Rightarrow> bytes list" where
  "since_last_erase [] = []"
| "since_last_erase (c # cs) =
     (if list_ex (contains_bytes ERASE_DISPLAY) cs then since_last_erase cs else c # cs)"


section \<open>The session registry\<close>

text \<open>
  The registry owns two dictionaries: the sessions by id and, per user, the set of that
  user's session ids. What its operations do to their collaborators is recorded beside
  them, in call order: the arguments of every call of the PTY factory, every
  \<open>close(code, reason)\<close> sent to a socket (a plain \<open>close()\<close> is code 1000 without a
  reason), and the PTY managers that were closed.
\<close>

record SessionRegistry =
  sessions :: "(string, TerminalSession) fmap"
  user_sessions :: "(string, string fset) fmap"
  pty_factory_calls :: "(string option \<times> int \<times> int) list"
  socket_closes :: "(WebSocket \<times> int \<times> string option) list"
  closed_ptys :: "SecurePTYManager list"

definition registry_init :: SessionRegistry where
  "registry_init =
     \<lparr>sessions = fmempty, user_sessions = fmempty, pty_factory_calls = [],
      socket_closes = [], closed_ptys = []\<rparr>"

text \<open>\<open>self._user_sessions.get(user_id, set())\<close>\<close>

definition get_user_set :: "SessionRegistry \<Rightarrow> string \<Rightarrow> string fset" where
  "get_user_set reg uid = (case fmlookup (user_sessions reg) uid of None \<Rightarrow> {||} | Some ids \<Rightarrow> ids)"

text \<open>
  \<open>create_session\<close>. The PTY factory is a parameter (it may raise), and so are the value
  of \<open>uuid.uuid4()\<close> and the clock reading. The result is the exception raised or the
  session returned, with the registry afterwards.
\<close>

definition create_session ::
  "(string option \<Rightarrow> int \<Rightarrow> int \<Rightarrow> error + SecurePTYManager) \<Rightarrow> string \<Rightarrow> datetime
     \<Rightarrow> SessionRegistry \<Rightarrow> string \<Rightarrow> string option \<Rightarrow> int \<Rightarrow> int
     \<Rightarrow> (error + TerminalSession) \<times> SessionRegistry" where
  "create_session pty_factory uuid4 now reg uid shell c r =
     (if fcard (get_user_set reg uid) \<ge> MAX_SESSIONS_PER_USER
      then (Inl (ValueError ''Maximum sessions (10) reached for user''), reg)
      else if fcard (fmdom (sessions reg)) \<ge> MAX_TOTAL_SESSIONS
      then (Inl (ValueError ''Server session limit reached''), reg)
      else
        let reg1 = reg\<lparr>pty_factory_calls := pty_factory_calls reg @ [(shell, c, r)]\<rparr>
        in case pty_factory shell c r of
             Inl e \<Rightarrow> (Inl e, reg1)
           | Inr pty \<Rightarrow>
               let session = new_session uuid4 uid pty
                     (case shell of None \<Rightarrow> ''default''
                      | Some sh \<Rightarrow> if sh = [] then ''default'' else sh) now
               in (Inr session,
                   reg1\<lparr>sessions := fmupd uuid4 session (sessions reg1),
                        user_sessions :=
                          fmupd uid (finsert uuid4 (get_user_set reg1 uid)) (user_sessions reg1)\<rparr>))"

definition get_session :: "SessionRegistry \<Rightarrow> string \<Rightarrow> TerminalSession option" where
  "get_session reg sid = fmlookup (sessions reg) sid"

definition destroy_session :: "SessionRegistry \<Rightarrow> string \<Rightarrow> SessionRegistry" where
  "destroy_session reg sid =
     (case fmlookup (sessions reg) sid of
        None \<Rightarrow> reg
      | Some session \<Rightarrow>
          let reg1 = reg\<lparr>sessions := fmdrop sid (sessions reg)\<rparr>;
              reg2 =
                (case fmlookup (user_sessions reg1) (user_id session) of
                   None \<Rightarrow> reg1
                 | Some ids \<Rightarrow>
                     if ids |-| {|sid|} = {||}
                     then reg1\<lparr>user_sessions := fmdrop (user_id session) (user_sessions reg1)\<rparr>
                     else reg1\<lparr>user_sessions :=
                            fmupd (user_id session) (ids |-| {|sid|}) (user_sessions reg1)\<rparr>);
              reg3 =
                (case websocket session of
                   None \<Rightarrow> reg2
                 | Some old \<Rightarrow> reg2\<lparr>socket_closes := socket_closes reg2 @ [(old, 1000, None)]\<rparr>)
          in reg3\<lparr>closed_ptys := closed_ptys reg3 @ [pty_close (pty_manager session)]\<rparr>)"

text \<open>
  \<open>reconnect_session\<close>: \<open>None\<close> for an unknown id, for another user's session and for a
  session whose PTY is dead (which is destroyed); otherwise a socket that is still
  bound and connected is closed with code 4000, and the new socket is bound.
\<close>

definition reconnect_session ::
  "SessionRegistry \<Rightarrow> datetime \<Rightarrow> string \<Rightarrow> string \<Rightarrow> WebSocket
     \<Rightarrow> TerminalSession option \<times> SessionRegistry" where
  "reconnect_session reg now sid uid ws =
     (case fmlookup (sessions reg) sid of
        None \<Rightarrow> (None, reg)
      | Some session \<Rightarrow>
          if user_id session \<noteq> uid then (None, reg)
          else if \<not> pty_is_alive (pty_manager session) then (None, destroy_session reg sid)
          else
            let reg1 =
                  (case websocket session of
                     None \<Rightarrow> reg
                   | Some old \<Rightarrow>
                       if is_connected session
                       then reg\<lparr>socket_closes := socket_closes reg @
                              [(old, 4000, Some ''Reconnected from another client'')]\<rparr>
                       else reg);
                session1 = touch (session\<lparr>websocket := Some ws, is_connected := True\<rparr>) now
            in (Some session1, reg1\<lparr>sessions := fmupd sid session1 (sessions reg1)\<rparr>))"

definition disconnect_session :: "SessionRegistry \<Rightarrow> datetime \<Rightarrow> string \<Rightarrow> SessionRegistry" where
  "disconnect_session reg now sid =
     (case fmlookup (sessions reg) sid of
        None \<Rightarrow> reg
      | Some session \<Rightarrow>
          reg\<lparr>sessions :=
                fmupd sid (touch (session\<lparr>websocket := None, is_connected := False\<rparr>) now)
                  (sessions reg)\<rparr>)"

definition session_count :: "SessionRegistry \<Rightarrow> nat" where
  "session_count reg = fcard (fmdom (sessions reg))"


section \<open>Python floats\<close>

text \<open>
  A Python \<open>float\<close> is an IEEE 754 binary64 number: a finite value, an infinity or a
  NaN. Finite values are kept as the real number they denote (the two zeros are not
  told apart: no operation below distinguishes them). Every arithmetic operation
  computes the exact result and rounds it to the nearest representable value, ties to
  the even significand. \<open>ulp_exponent a\<close> is the exponent of the spacing of the doubles
  around magnitude \<open>a\<close>: the largest \<open>k\<close> from \<open>-1074\<close> to \<open>971\<close> with
  \<open>2 powi (k + 52) \<le> a\<close>, and \<open>-1074\<close> (the subnormal spacing) when there is none. A
  result that rounds to magnitude \<open>2 ^ 1024\<close> or more is an infinity.
\<close>

datatype pyfloat = Fin real | PInf | NInf | NaN

definition round_half_even :: "real \<Rightarrow> int" where
  "round_half_even r =
     (let f = \<lfloor>r\<rfloor>; d = r - of_int f
      in if d < 1 / 2 then f else if 1 / 2 < d then f + 1 else if even f then f else f + 1)"

fun ulp_search :: "nat \<Rightarrow> real \<Rightarrow> int" where
  "ulp_search 0 a = - 1074"
| "ulp_search (Suc j) a = (if 2 powi (int j - 1021) \<le> a then int j - 1073 else ulp_search j a)"

definition ulp_exponent :: "real \<Rightarrow> int" where
  "ulp_exponent a = ulp_search 2045 a"

definition round_double :: "real \<Rightarrow> pyfloat" where
  "round_double x =
     (let u = 2 powi ulp_exponent \<bar>x\<bar>;
          r = of_int (round_half_even (x / u)) * u
      in if 2 ^ 1024 \<le> \<bar>r\<bar> then (if 0 < x then PInf else NInf) else Fin r)"

fun fneg :: "pyfloat \<Rightarrow> pyfloat" where
  "fneg (Fin x) = Fin (- x)"
| "fneg PInf = NInf"
| "fneg NInf = PInf"
| "fneg NaN = NaN"

fun fadd :: "pyfloat \<Rightarrow> pyfloat \<Rightarrow> pyfloat" where
  "fadd (Fin x) (Fin y) = round_double (x + y)"
| "fadd NaN b = NaN"
| "fadd a NaN = NaN"
| "fadd PInf NInf = NaN"
| "fadd NInf PInf = NaN"
| "fadd PInf b = PInf"
| "fadd NInf b = NInf"
| "fadd a PInf = PInf"
| "fadd a NInf = NInf"

definition fsub :: "pyfloat \<Rightarrow> pyfloat \<Rightarrow> pyfloat" where
  "fsub a b = fadd a (fneg b)"

fun fmul :: "pyfloat \<Rightarrow> pyfloat \<Rightarrow> pyfloat" where
  "fmul (Fin x) (Fin y) = round_double (x * y)"
| "fmul NaN b = NaN"
| "fmul a NaN = NaN"
| "fmul (Fin x) PInf = (if x = 0 then NaN else if 0 < x then PInf else NInf)"
| "fmul (Fin x) NInf = (if x = 0 then NaN else if 0 < x then NInf else PInf)"
| "fmul PInf (Fin y) = (if y = 0 then NaN else if 0 < y then PInf else NInf)"
| "fmul NInf (Fin y) = (if y = 0 then NaN else if 0 < y then NInf else PInf)"
| "fmul PInf PInf = PInf"
| "fmul PInf NInf = NInf"
| "fmul NInf PInf = NInf"
| "fmul NInf NInf = PInf"

text \<open>
  A Python number in the rate limiter is an \<open>int\<close> (unbounded, exact) or a \<open>float\<close>.
  Arithmetic between the two converts the \<open>int\<close> to the nearest \<open>float\<close> and raises
  \<open>OverflowError\<close> when it is too large; comparisons between the two are exact.
\<close>

datatype number = IntN int | FloatN pyfloat

definition int_to_float :: "int \<Rightarrow> error + pyfloat" where
  "int_to_float i =
     (case round_double (of_int i) of Fin r \<Rightarrow> Inr (Fin r) | _ \<Rightarrow> Inl OverflowError)"

fun to_float :: "number \<Rightarrow> error + pyfloat" where
  "to_float (IntN i) = int_to_float i"
| "to_float (FloatN f) = Inr f"

text \<open>\<open>f < i\<close> for a float and an int.\<close>

fun float_lt_int :: "pyfloat \<Rightarrow> int \<Rightarrow> bool" where
  "float_lt_int (Fin r) i = (r < of_int i)"
| "float_lt_int PInf i = False"
| "float_lt_int NInf i = True"
| "float_lt_int NaN i = False"

text \<open>\<open>t >= n\<close> and \<open>t - n\<close> for a number and an int.\<close>

fun num_ge_int :: "number \<Rightarrow> int \<Rightarrow> bool" where
  "num_ge_int (IntN b) n = (n \<le> b)"
| "num_ge_int (FloatN (Fin r)) n = (of_int n \<le> r)"
| "num_ge_int (FloatN PInf) n = True"
| "num_ge_int (FloatN NInf) n = False"
| "num_ge_int (FloatN NaN) n = False"

fun num_sub_int :: "number \<Rightarrow> int \<Rightarrow> error + number" where
  "num_sub_int (IntN b) n = Inr (IntN (b - n))"
| "num_sub_int (FloatN f) n =
     (case int_to_float n of Inl e \<Rightarrow> Inl e | Inr nf \<Rightarrow> Inr (FloatN (fsub f nf)))"

text \<open>A float is at least a real bound (an infinite result is above every bound).\<close>

fun fge :: "pyfloat \<Rightarrow> real \<Rightarrow> bool" where
  "fge (Fin r) c = (c \<le> r)"
| "fge PInf c = True"
| "fge NInf c = False"
| "fge NaN c = False"


section \<open>websocket/rate_limiter.py: the token bucket\<close>

text \<open>
  The clock of the event loop is a parameter of every call; its readings are finite
  floats, kept as reals. \<open>rate\<close> is whatever number the caller gave (the default is the
  \<open>int\<close> 100), \<open>burst\<close> is an \<open>int\<close>, and \<open>tokens\<close> starts as \<open>float(burst)\<close>. Since
  \<open>min(self.burst, x)\<close> returns \<open>x\<close> only when \<open>x < self.burst\<close>, \<open>tokens\<close> is the \<open>int\<close>
  \<open>burst\<close> itself whenever the bucket is full, and a float otherwise.
\<close>

definition DEFAULT_RATE :: number where
  "DEFAULT_RATE = IntN 100"

definition DEFAULT_BURST :: int where
  "DEFAULT_BURST = 500"

record RateLimiter =
  rate :: number
  burst :: int
  tokens :: number
  last_update :: real

definition rate_limiter_init :: "number \<Rightarrow> int \<Rightarrow> real \<Rightarrow> error + RateLimiter" where
  "rate_limiter_init r b now =
     (case int_to_float b of
        Inl e \<Rightarrow> Inl e
      | Inr f \<Rightarrow> Inr \<lparr>rate = r, burst = b, tokens = FloatN f, last_update = now\<rparr>)"

text \<open>
  The refill of \<open>acquire\<close>, that is the value of
  \<^verbatim>\<open>min(self.burst, self.tokens + elapsed * self.rate)\<close>
  with \<open>elapsed = now - self.last_update\<close>, or the exception raised while computing it.
\<close>

definition refill :: "RateLimiter \<Rightarrow> real \<Rightarrow> error + number" where
  "refill rl now =
     (let elapsed = round_double (now - last_update rl)
      in case to_float (rate rl) of
           Inl e \<Rightarrow> Inl e
         | Inr r \<Rightarrow>
             (case to_float (tokens rl) of
                Inl e \<Rightarrow> Inl e
              | Inr tk \<Rightarrow>
                  let total = fadd tk (fmul elapsed r)
                  in Inr (if float_lt_int total (burst rl) then FloatN total
                          else IntN (burst rl))))"

text \<open>
  \<open>acquire\<close>: the value returned or the exception raised, and the limiter afterwards. An
  exception during the refill leaves the limiter as it was; one during the decrement
  comes after the refill has been stored.
\<close>

definition acquire :: "RateLimiter \<Rightarrow> real \<Rightarrow> int \<Rightarrow> (error + bool) \<times> RateLimiter" where
  "acquire rl now n =
     (case refill rl now of
        Inl e \<Rightarrow> (Inl e, rl)
      | Inr t \<Rightarrow>
          let rl1 = rl\<lparr>tokens := t, last_update := now\<rparr>
          in if num_ge_int t n
             then (case num_sub_int t n of
                     Inl e \<Rightarrow> (Inl e, rl1)
                   | Inr t' \<Rightarrow> (Inr True, rl1\<lparr>tokens := t'\<rparr>))
             else (Inr False, rl1))"


section \<open>websocket/buffer.py: the output buffer\<close>

text \<open>
  The delayed flush is a task that sleeps for the flush interval and then sends. The
  model keeps, for a task that exists, whether it still sleeps (and until when) or was
  cancelled; a task that was cancelled never runs its body. The frames handed to the
  socket are recorded in order.
\<close>

datatype flush_task_state = Sleeping real | Cancelled

definition DEFAULT_FLUSH_INTERVAL_MS :: int where
  "DEFAULT_FLUSH_INTERVAL_MS = 8"

record OutputBuffer =
  ob_websocket :: WebSocket
  buffer :: "bytes list"
  flush_interval :: real
  flush_task :: "flush_task_state option"
  ob_closed :: bool
  frames_sent :: "bytes list"

definition output_buffer_init :: "WebSocket \<Rightarrow> int \<Rightarrow> OutputBuffer" where
  "output_buffer_init ws flush_interval_ms =
     \<lparr>ob_websocket = ws, buffer = [], flush_interval = real_of_int flush_interval_ms / 1000,
      flush_task = None, ob_closed = False, frames_sent = []\<rparr>"

text \<open>The send shared by \<open>flush\<close> and the delayed flush: everything queued, as one frame.\<close>

definition send_queued :: "OutputBuffer \<Rightarrow> OutputBuffer" where
  "send_queued ob =
     (if buffer ob \<noteq> [] \<and> \<not> ob_closed ob
      then ob\<lparr>buffer := [], frames_sent := frames_sent ob @ [concat (buffer ob)]\<rparr>
      else ob)"

definition flush :: "OutputBuffer \<Rightarrow> OutputBuffer" where
  "flush ob =
     send_queued (case flush_task ob of None \<Rightarrow> ob | Some task \<Rightarrow> ob\<lparr>flush_task := None\<rparr>)"

definition ob_write :: "OutputBuffer \<Rightarrow> real \<Rightarrow> bytes \<Rightarrow> OutputBuffer" where
  "ob_write ob now data =
     (if ob_closed ob then ob
      else
        let ob1 = ob\<lparr>buffer := buffer ob @ [data]\<rparr>
        in if length data \<le> 64 then flush ob1
           else if flush_task ob1 = None
           then ob1\<lparr>flush_task := Some (Sleeping (now + flush_interval ob1))\<rparr>
           else ob1)"

text \<open>
  The body of \<open>_delayed_flush\<close> after its sleep, and the event loop at time \<open>now\<close>: a
  sleeping task whose time has come runs that body.
\<close>

definition delayed_flush :: "OutputBuffer \<Rightarrow> OutputBuffer" where
  "delayed_flush ob = (send_queued ob)\<lparr>flush_task := None\<rparr>"

definition run_timers :: "OutputBuffer \<Rightarrow> real \<Rightarrow> OutputBuffer" where
  "run_timers ob now =
     (case flush_task ob of
        Some (Sleeping wake) \<Rightarrow> if wake \<le> now then delayed_flush ob else ob
      | _ \<Rightarrow> ob)"

definition ob_close :: "OutputBuffer \<Rightarrow> OutputBuffer" where
  "ob_close ob =
     (case flush_task ob of
        None \<Rightarrow> ob\<lparr>ob_closed := True\<rparr>
      | Some task \<Rightarrow> ob\<lparr>ob_closed := True, flush_task := Some Cancelled\<rparr>)"


section \<open>websocket/handler.py and websocket/handlers.py: terminal input\<close>

text \<open>
  A JSON text is a Python \<open>str\<close>: a sequence of code points, whose \<open>len\<close> counts code
  points. \<open>encode("utf-8")\<close> gives one to four bytes per code point and raises on a
  surrogate.
\<close>

type_synonym unicode = "nat list"

definition utf8_code_point :: "nat \<Rightarrow> error + bytes" where
  "utf8_code_point c =
     (if c < 0x80 then Inr [char_of c]
      else if c < 0x800 then Inr [char_of (0xC0 + c div 64), char_of (0x80 + c mod 64)]
      else if 0xD800 \<le> c \<and> c \<le> 0xDFFF then Inl UnicodeEncodeError
      else if c < 0x10000
      then Inr [char_of (0xE0 + c div 4096), char_of (0x80 + c div 64 mod 64),
                char_of (0x80 + c mod 64)]
      else if c < 0x110000
      then Inr [char_of (0xF0 + c div 262144), char_of (0x80 + c div 4096 mod 64),
                char_of (0x80 + c div 64 mod 64), char_of (0x80 + c mod 64)]
      else Inl UnicodeEncodeError)"

fun encode_utf8 :: "unicode \<Rightarrow> error + bytes" where
  "encode_utf8 [] = Inr []"
| "encode_utf8 (c # cs) =
     (case utf8_code_point c of
        Inl e \<Rightarrow> Inl e
      | Inr bs \<Rightarrow> (case encode_utf8 cs of Inl e \<Rightarrow> Inl e | Inr rest \<Rightarrow> Inr (bs @ rest)))"

definition MAX_INPUT_SIZE :: int where
  "MAX_INPUT_SIZE = 4096"

text \<open>
  The context of the message handlers. \<open>json_sent\<close> records the objects given to
  \<open>send_json\<close> on the context's socket, each as its list of keys and values.
\<close>

record MessageContext =
  ctx_websocket :: WebSocket
  session :: TerminalSession
  rate_limiter :: RateLimiter
  max_input_size :: int
  log_raw_input :: bool
  json_sent :: "(string \<times> string) list list"

definition error_message :: "string \<Rightarrow> (string \<times> string) list" where
  "error_message text = [(''type'', ''error''), (''message'', text)]"

text \<open>Writing accepted input: \<open>ctx.session.pty_manager.write(..)\<close>, then \<open>ctx.session.touch()\<close>.\<close>

definition write_to_pty :: "MessageContext \<Rightarrow> datetime \<Rightarrow> bytes \<Rightarrow> MessageContext" where
  "write_to_pty ctx now input_bytes =
     ctx\<lparr>session :=
           touch ((session ctx)\<lparr>pty_manager := pty_write (pty_manager (session ctx)) input_bytes\<rparr>)
             now\<rparr>"

text \<open>
  \<open>_handle_binary_input\<close>; \<open>t\<close> is the event loop's clock (for the rate limiter) and \<open>now\<close>
  the wall clock (for the activity timestamp). An exception raised by the rate limiter
  leaves the handler.
\<close>

definition handle_binary_input ::
  "MessageContext \<Rightarrow> real \<Rightarrow> datetime \<Rightarrow> bytes \<Rightarrow> error + MessageContext" where
  "handle_binary_input ctx t now input_bytes =
     (if int (length input_bytes) > max_input_size ctx
      then Inr (ctx\<lparr>json_sent := json_sent ctx @ [error_message ''Input too large'']\<rparr>)
      else
        let (res, rl) = acquire (rate_limiter ctx) t (int (length input_bytes));
            ctx1 = ctx\<lparr>rate_limiter := rl\<rparr>
        in case res of
             Inl e \<Rightarrow> Inl e
           | Inr ok \<Rightarrow>
               if \<not> ok
               then Inr (ctx1\<lparr>json_sent :=
                               json_sent ctx1 @ [error_message ''Rate limit exceeded'']\<rparr>)
               else Inr (write_to_pty ctx1 now input_bytes))"

text \<open>
  \<open>handle_input\<close> for a message whose \<open>data\<close> field, when present, is a JSON string
  (\<open>None\<close> stands for a message without the field, which defaults to the empty string).
\<close>

definition handle_input ::
  "MessageContext \<Rightarrow> real \<Rightarrow> datetime \<Rightarrow> unicode option \<Rightarrow> error + MessageContext" where
  "handle_input ctx t now data_field =
     (let data = (case data_field of None \<Rightarrow> [] | Some d \<Rightarrow> d)
      in if int (length data) > max_input_size ctx
         then Inr (ctx\<lparr>json_sent := json_sent ctx @ [error_message ''Input too large'']\<rparr>)
         else if data \<noteq> []
         then (case encode_utf8 data of
                 Inl e \<Rightarrow> Inl e
               | Inr input_bytes \<Rightarrow>
                   let (res, rl) = acquire (rate_limiter ctx) t (int (length input_bytes));
                       ctx1 = ctx\<lparr>rate_limiter := rl\<rparr>
                   in (case res of
                         Inl e \<Rightarrow> Inl e
                       | Inr ok \<Rightarrow>
                           if ok then Inr (write_to_pty ctx1 now input_bytes) else Inr ctx1))
         else Inr ctx)"

text \<open>The context that \<open>handle_terminal_session\<close> builds for a connection.\<close>

definition new_context ::
  "WebSocket \<Rightarrow> TerminalSession \<Rightarrow> real \<Rightarrow> bool \<Rightarrow> error + MessageContext" where
  "new_context ws s t raw =
     (case rate_limiter_init DEFAULT_RATE DEFAULT_BURST t of
        Inl e \<Rightarrow> Inl e
      | Inr rl \<Rightarrow>
          Inr \<lparr>ctx_websocket = ws, session = s, rate_limiter = rl,
               max_input_size = MAX_INPUT_SIZE, log_raw_input = raw, json_sent = []\<rparr>)"


section \<open>Example states\<close>

text \<open>
  Concrete states on which the theorems below are instantiated: a live PTY manager and
  a factory that always returns one; a registry filled with \<open>users\<close> users of \<open>per\<close>
  sessions each, in which both dictionaries agree; a registry holding one connected
  session of user \<open>alice\<close>, and the same with a PTY that has exited; the context of a new
  connection at clock reading 0, and that context after 500 bytes of binary input have
  been accepted at the same clock reading, which leaves the token bucket empty.
\<close>

definition example_pty :: SecurePTYManager where
  "example_pty = \<lparr>backend = fake_init\<lparr>alive := True\<rparr>\<rparr>"

definition example_factory :: "string option \<Rightarrow> int \<Rightarrow> int \<Rightarrow> error + SecurePTYManager" where
  "example_factory shell c r = Inr \<lparr>backend = fake_init\<lparr>alive := True, rows := r, cols := c\<rparr>\<rparr>"

definition example_id :: "nat \<Rightarrow> string" where
  "example_id i = replicate (Suc i) (CHR ''s'')"

definition example_user :: "nat \<Rightarrow> string" where
  "example_user j = replicate (Suc j) (CHR ''u'')"

definition crowded_registry :: "nat \<Rightarrow> nat \<Rightarrow> SessionRegistry" where
  "crowded_registry users per =
     registry_init
       \<lparr>sessions :=
          fmap_of_list
            (map (\<lambda>i. (example_id i,
                        new_session (example_id i) (example_user (i div per)) example_pty ''bash'' 0))
               [0..<users * per]),
        user_sessions :=
          fmap_of_list
            (map (\<lambda>j. (example_user j, fset_of_list (map example_id [j * per..<Suc j * per])))
               [0..<users])\<rparr>"

definition example_session :: TerminalSession where
  "example_session =
     (new_session ''s1'' ''alice'' example_pty ''bash'' 0)\<lparr>websocket := Some 1, is_connected := True\<rparr>"

definition example_registry :: SessionRegistry where
  "example_registry =
     registry_init\<lparr>sessions := fmupd ''s1'' example_session fmempty,
                   user_sessions := fmupd ''alice'' {|''s1''|} fmempty\<rparr>"

definition stale_registry :: SessionRegistry where
  "stale_registry =
     registry_init
       \<lparr>sessions :=
          fmupd ''s1'' (example_session\<lparr>pty_manager := pty_close example_pty\<rparr>) fmempty,
        user_sessions := fmupd ''alice'' {|''s1''|} fmempty\<rparr>"

definition fresh_context :: MessageContext where
  "fresh_context =
     \<lparr>ctx_websocket = 1, session = example_session,
      rate_limiter = \<lparr>rate = IntN 100, burst = 500, tokens = FloatN (Fin 500), last_update = 0\<rparr>,
      max_input_size = 4096, log_raw_input = False, json_sent = []\<rparr>"

definition exhausted_context :: MessageContext where
  "exhausted_context =
     fresh_context
       \<lparr>rate_limiter := \<lparr>rate = IntN 100, burst = 500, tokens = IntN 0, last_update = 0\<rparr>,
        session := example_session
          \<lparr>pty_manager := pty_write example_pty (replicate 500 (CHR ''x'')),
           last_activity := 0\<rparr>\<rparr>"


section \<open>Properties of the byte helpers\<close>

lemma contains_bytes_sublist: "contains_bytes pat xs \<longleftrightarrow> sublist pat xs"
  by (induction xs) (auto simp: sublist_Cons_right)

lemma contains_bytes_set: "contains_bytes pat xs \<Longrightarrow> set pat \<subseteq> set xs"
  by (simp add: contains_bytes_sublist set_mono_sublist)

lemma no_erase_without_escape: "CHR 0x1B \<notin> set xs \<Longrightarrow> \<not> contains_bytes ERASE_DISPLAY xs"
  using contains_bytes_set [of ERASE_DISPLAY xs] by (auto simp: ERASE_DISPLAY_def)


section \<open>The replay buffer\<close>

lemma total_size_simps [simp]:
  "total_size [] = 0"
  "total_size (c # cs) = int (length c) + total_size cs"
  "total_size (xs @ ys) = total_size xs + total_size ys"
  by (simp_all add: total_size_def)

lemma total_size_nonneg: "0 \<le> total_size cs"
  by (induction cs) simp_all

lemma total_size_concat: "total_size cs = int (length (concat cs))"
  by (induction cs) simp_all

lemma fitting_suffix_fits: "0 \<le> cap \<Longrightarrow> total_size (fitting_suffix cap cs) \<le> cap"
  by (induction cs) simp_all

lemma fitting_suffix_suffix: "suffix (fitting_suffix cap cs) cs"
  by (induction cs) (simp_all add: suffix_Cons)

lemma fitting_suffix_maximal:
  "suffix ys cs \<Longrightarrow> total_size ys \<le> cap \<Longrightarrow> suffix ys (fitting_suffix cap cs)"
proof (induction cs)
  case Nil
  then show ?case by simp
next
  case (Cons c cs)
  show ?case
  proof (cases "total_size (c # cs) \<le> cap")
    case True
    with Cons.prems show ?thesis by simp
  next
    case False
    with Cons.prems have "ys \<noteq> c # cs" by auto
    with Cons.prems have "suffix ys cs" by (simp add: suffix_Cons)
    with Cons.IH Cons.prems False show ?thesis by simp
  qed
qed

lemma fitting_suffix_id: "total_size cs \<le> cap \<Longrightarrow> fitting_suffix cap cs = cs"
  by (cases cs) simp_all

lemma fitting_suffix_snoc:
  "fitting_suffix cap (xs @ [c]) = fitting_suffix cap (fitting_suffix cap xs @ [c])"
proof (induction xs)
  case Nil
  show ?case by simp
next
  case (Cons x xs)
  show ?case
  proof (cases "total_size (x # xs) \<le> cap")
    case True
    then show ?thesis by simp
  next
    case False
    then have "\<not> total_size ((x # xs) @ [c]) \<le> cap" by simp
    with False Cons.IH show ?thesis by simp
  qed
qed

lemma fitting_suffix_of_suffix:
  "suffix ys cs \<Longrightarrow> cap < total_size ys \<Longrightarrow> fitting_suffix cap cs = fitting_suffix cap ys"
proof (induction cs)
  case Nil
  then show ?case by simp
next
  case (Cons c cs)
  show ?case
  proof (cases "ys = c # cs")
    case True
    then show ?thesis by simp
  next
    case False
    with Cons.prems have suf: "suffix ys cs" by (simp add: suffix_Cons)
    from suf obtain zs where zs: "cs = zs @ ys" by (auto simp: suffix_def)
    have "total_size ys \<le> total_size (c # cs)"
      using total_size_nonneg [of zs] by (simp add: zs)
    with Cons.prems have "\<not> total_size (c # cs) \<le> cap" by simp
    with Cons.IH [OF suf Cons.prems(2)] show ?thesis by simp
  qed
qed

lemma trim_buffer_fitting:
  "trim_buffer buf (total_size buf) =
     (fitting_suffix OUTPUT_BUFFER_MAX_BYTES buf,
      total_size (fitting_suffix OUTPUT_BUFFER_MAX_BYTES buf))"
  by (induction buf) simp_all

lemma since_last_erase_snoc:
  "since_last_erase (cs @ [c]) =
     (if contains_bytes ERASE_DISPLAY c then [c] else since_last_erase cs @ [c])"
  by (induction cs) (auto simp: list_ex_iff)

lemma since_last_erase_suffix: "suffix (since_last_erase cs) cs"
  by (induction cs) (simp_all add: suffix_Cons)

lemma since_last_erase_id:
  "\<not> list_ex (contains_bytes ERASE_DISPLAY) cs \<Longrightarrow> since_last_erase cs = cs"
  by (cases cs) simp_all

lemma append_chunk_buffer:
  "output_buffer (append_chunk s c) =
     (if contains_bytes ERASE_DISPLAY c then [] else output_buffer s) @ [c]"
  by (simp add: append_chunk_def Let_def)

lemma append_chunk_size:
  "output_buffer_size s = total_size (output_buffer s) \<Longrightarrow>
   output_buffer_size (append_chunk s c) = total_size (output_buffer (append_chunk s c))"
  by (simp add: append_chunk_def Let_def)

lemma add_to_buffer_buffer:
  "output_buffer_size s = total_size (output_buffer s) \<Longrightarrow>
   output_buffer (add_to_buffer s c) =
     fitting_suffix OUTPUT_BUFFER_MAX_BYTES (output_buffer (append_chunk s c))"
  using append_chunk_size [of s c]
  by (simp add: add_to_buffer_def Let_def trim_buffer_fitting)

lemma add_to_buffer_size:
  "output_buffer_size s = total_size (output_buffer s) \<Longrightarrow>
   output_buffer_size (add_to_buffer s c) = total_size (output_buffer (add_to_buffer s c))"
  using append_chunk_size [of s c]
  by (simp add: add_to_buffer_def Let_def trim_buffer_fitting)

lemma appends_buffer:
  assumes "output_buffer s0 = []" and "output_buffer_size s0 = 0"
  shows "output_buffer_size (foldl add_to_buffer s0 cs) =
           total_size (output_buffer (foldl add_to_buffer s0 cs)) \<and>
         output_buffer (foldl add_to_buffer s0 cs) =
           fitting_suffix OUTPUT_BUFFER_MAX_BYTES (since_last_erase cs)"
proof (induction cs rule: rev_induct)
  case Nil
  from assms show ?case by simp
next
  case (snoc c cs)
  let ?s = "foldl add_to_buffer s0 cs"
  from snoc have inv: "output_buffer_size ?s = total_size (output_buffer ?s)"
    and buf: "output_buffer ?s = fitting_suffix OUTPUT_BUFFER_MAX_BYTES (since_last_erase cs)"
    by simp_all
  have "output_buffer (add_to_buffer ?s c) =
          fitting_suffix OUTPUT_BUFFER_MAX_BYTES (since_last_erase (cs @ [c]))"
    using fitting_suffix_snoc [of OUTPUT_BUFFER_MAX_BYTES "since_last_erase cs" c]
    by (simp add: add_to_buffer_buffer [OF inv] append_chunk_buffer buf since_last_erase_snoc)
  with add_to_buffer_size [OF inv, of c] show ?case by simp
qed

text \<open>
  Claim C1. Start from a fresh session (empty buffer, size 0), append the chunks \<open>cs\<close>
  in order and then one more chunk \<open>c\<close>. After that append the running size is at most
  1,000,000 and equals the total size of the buffered chunks. The trimming loop keeps
  the longest suffix of the chunks held before it that fits under the cap, so chunks
  are dropped oldest first. The snapshot is the concatenation, in arrival order, of
  the most recent chunks that fit under the cap, counted from the last chunk carrying
  the erase sequence; whenever the append pushed the running size over the cap, and
  whenever no chunk carries the erase sequence, these are the most recent chunks of
  the whole arrival sequence that fit under the cap.
\<close>

theorem replay_buffer_capped:
  assumes "output_buffer s0 = []" and "output_buffer_size s0 = 0"
  shows
    "let s = foldl add_to_buffer s0 cs; s' = add_to_buffer s c in
       output_buffer_size s' \<le> OUTPUT_BUFFER_MAX_BYTES
     \<and> output_buffer_size s' = total_size (output_buffer s')
     \<and> output_buffer s' = fitting_suffix OUTPUT_BUFFER_MAX_BYTES (output_buffer (append_chunk s c))
     \<and> get_buffered_output s' =
         concat (fitting_suffix OUTPUT_BUFFER_MAX_BYTES (since_last_erase (cs @ [c])))
     \<and> (OUTPUT_BUFFER_MAX_BYTES < output_buffer_size (append_chunk s c) \<longrightarrow>
         get_buffered_output s' = concat (fitting_suffix OUTPUT_BUFFER_MAX_BYTES (cs @ [c])))
     \<and> (\<not> list_ex (contains_bytes ERASE_DISPLAY) (cs @ [c]) \<longrightarrow>
         get_buffered_output s' = concat (fitting_suffix OUTPUT_BUFFER_MAX_BYTES (cs @ [c])))"
proof -
  let ?cap = OUTPUT_BUFFER_MAX_BYTES
  let ?s = "foldl add_to_buffer s0 cs"
  let ?s' = "add_to_buffer ?s c"
  have cap: "0 \<le> ?cap" by (simp add: OUTPUT_BUFFER_MAX_BYTES_def)
  from appends_buffer [OF assms, of cs]
  have inv: "output_buffer_size ?s = total_size (output_buffer ?s)"
    and buf: "output_buffer ?s = fitting_suffix ?cap (since_last_erase cs)"
    by simp_all
  from appends_buffer [OF assms, of "cs @ [c]"]
  have inv': "output_buffer_size ?s' = total_size (output_buffer ?s')"
    and buf': "output_buffer ?s' = fitting_suffix ?cap (since_last_erase (cs @ [c]))"
    by simp_all
  have bound: "output_buffer_size ?s' \<le> ?cap"
    using fitting_suffix_fits [OF cap] by (simp add: inv' buf')
  have fifo: "output_buffer ?s' = fitting_suffix ?cap (output_buffer (append_chunk ?s c))"
    by (rule add_to_buffer_buffer [OF inv])
  have snap: "get_buffered_output ?s' = concat (fitting_suffix ?cap (since_last_erase (cs @ [c])))"
    by (simp add: get_buffered_output_def buf')
  have over: "get_buffered_output ?s' = concat (fitting_suffix ?cap (cs @ [c]))"
    if "?cap < output_buffer_size (append_chunk ?s c)"
  proof -
    let ?p = "output_buffer (append_chunk ?s c)"
    have "suffix (fitting_suffix ?cap (since_last_erase cs)) cs"
      using fitting_suffix_suffix since_last_erase_suffix suffix_order.trans by blast
    then have "suffix ?p (cs @ [c])"
      by (auto simp: append_chunk_buffer buf suffix_def)
    moreover have "?cap < total_size ?p"
      using that append_chunk_size [OF inv, of c] by simp
    ultimately have "fitting_suffix ?cap (cs @ [c]) = fitting_suffix ?cap ?p"
      by (rule fitting_suffix_of_suffix)
    with fifo show ?thesis by (simp add: get_buffered_output_def)
  qed
  have plain: "get_buffered_output ?s' = concat (fitting_suffix ?cap (cs @ [c]))"
    if "\<not> list_ex (contains_bytes ERASE_DISPLAY) (cs @ [c])"
    using that snap since_last_erase_id [of "cs @ [c]"] by simp
  from bound inv' fifo snap over plain show ?thesis
    unfolding Let_def by blast
qed

theorem replay_buffer_capped_witness:
  "output_buffer (new_session ''s1'' ''alice'' \<lparr>backend = fake_init\<rparr> ''bash'' 0) = []
 \<and> output_buffer_size (new_session ''s1'' ''alice'' \<lparr>backend = fake_init\<rparr> ''bash'' 0) = 0
 \<and> OUTPUT_BUFFER_MAX_BYTES <
     output_buffer_size
       (append_chunk
          (foldl add_to_buffer (new_session ''s1'' ''alice'' \<lparr>backend = fake_init\<rparr> ''bash'' 0)
             [replicate 600000 (CHR ''a'')])
          (replicate 500000 (CHR ''b'')))
 \<and> \<not> list_ex (contains_bytes ERASE_DISPLAY)
       ([replicate 600000 (CHR ''a'')] @ [replicate 500000 (CHR ''b'')])
 \<and> get_buffered_output
       (add_to_buffer
          (foldl add_to_buffer (new_session ''s1'' ''alice'' \<lparr>backend = fake_init\<rparr> ''bash'' 0)
             [replicate 600000 (CHR ''a'')])
          (replicate 500000 (CHR ''b'')))
     = replicate 500000 (CHR ''b'')
 \<and> output_buffer_size
       (add_to_buffer
          (foldl add_to_buffer (new_session ''s1'' ''alice'' \<lparr>backend = fake_init\<rparr> ''bash'' 0)
             [replicate 600000 (CHR ''a'')])
          (replicate 500000 (CHR ''b'')))
     = 500000"
proof -
  define s0 where "s0 = new_session ''s1'' ''alice'' \<lparr>backend = fake_init\<rparr> ''bash'' 0"
  define A where "A = replicate 600000 (CHR ''a'')"
  define B where "B = replicate 500000 (CHR ''b'')"
  have lenA: "int (length A) = 600000" and lenB: "int (length B) = 500000"
    by (simp_all only: A_def B_def length_replicate)
  have noA: "\<not> contains_bytes ERASE_DISPLAY A" and noB: "\<not> contains_bytes ERASE_DISPLAY B"
    unfolding A_def B_def by (rule no_erase_without_escape, simp only: set_replicate_conv_if, simp)+
  have e: "output_buffer s0 = []" and z: "output_buffer_size s0 = 0"
    by (simp_all add: s0_def new_session_def)
  have s1: "output_buffer (add_to_buffer s0 A) = [A]"
    "output_buffer_size (add_to_buffer s0 A) = 600000"
    by (simp_all add: add_to_buffer_def append_chunk_def Let_def noA e z lenA
        OUTPUT_BUFFER_MAX_BYTES_def)
  have over: "OUTPUT_BUFFER_MAX_BYTES < output_buffer_size (append_chunk (foldl add_to_buffer s0 [A]) B)"
    by (simp add: append_chunk_def Let_def noB s1 lenB OUTPUT_BUFFER_MAX_BYTES_def)
  have none: "\<not> list_ex (contains_bytes ERASE_DISPLAY) ([A] @ [B])"
    by (simp add: noA noB)
  from replay_buffer_capped [OF e z, of "[A]" B] over
  have "get_buffered_output (add_to_buffer (foldl add_to_buffer s0 [A]) B) = B"
    and "output_buffer_size (add_to_buffer (foldl add_to_buffer s0 [A]) B) = 500000"
    unfolding Let_def
    by (simp_all add: lenA lenB noA noB s1 append_chunk_buffer OUTPUT_BUFFER_MAX_BYTES_def)
  with e z over none show ?thesis
    unfolding s0_def A_def B_def by (simp only: simp_thms)
qed

text \<open>
  Claim C8. For every buffer state, appending a chunk that contains the bytes
  \<open>ESC [ 2 J\<close> clears the buffer before the chunk is appended: right after the append
  phase the buffer holds that chunk alone and the running size is its length, so the
  snapshot is the chunk itself (or empty when the chunk alone exceeds the cap and is
  trimmed away). In particular, after appending \<open>A\<close> and then \<open>ESC [ 2 J b\<close> the snapshot
  is \<open>ESC [ 2 J b\<close>.
\<close>

theorem erase_display_clears_buffer:
  "(contains_bytes ERASE_DISPLAY data \<longrightarrow>
      output_buffer (append_chunk s data) = [data]
    \<and> output_buffer_size (append_chunk s data) = int (length data)
    \<and> get_buffered_output (add_to_buffer s data) =
        (if int (length data) \<le> OUTPUT_BUFFER_MAX_BYTES then data else []))
 \<and> get_buffered_output (add_to_buffer (add_to_buffer s ''A'') (CHR 0x1B # ''[2Jb'')) =
      CHR 0x1B # ''[2Jb''"
proof -
  have cleared: "output_buffer (append_chunk s data) = [data]
      \<and> output_buffer_size (append_chunk s data) = int (length data)"
    if "contains_bytes ERASE_DISPLAY data" for s data
    using that by (simp add: append_chunk_def)
  have snapshot: "get_buffered_output (add_to_buffer s data) =
      (if int (length data) \<le> OUTPUT_BUFFER_MAX_BYTES then data else [])"
    if "contains_bytes ERASE_DISPLAY data" for s data
    using cleared [OF that, of s]
    by (simp add: add_to_buffer_def get_buffered_output_def)
  have erase: "contains_bytes ERASE_DISPLAY (CHR 0x1B # ''[2Jb'')"
    by (simp add: ERASE_DISPLAY_def)
  have example:
    "get_buffered_output (add_to_buffer (add_to_buffer s ''A'') (CHR 0x1B # ''[2Jb'')) =
      CHR 0x1B # ''[2Jb''"
    using snapshot [OF erase, of "add_to_buffer s ''A''"]
    by (simp add: OUTPUT_BUFFER_MAX_BYTES_def)
  from cleared [of data s] snapshot [of data s] example show ?thesis by simp
qed

theorem erase_display_clears_buffer_witness:
  "contains_bytes ERASE_DISPLAY (CHR 0x1B # ''[2Jb'')
 \<and> get_buffered_output
      (add_to_buffer
         ((new_session ''s1'' ''alice'' \<lparr>backend = fake_init\<rparr> ''bash'' 0)
            \<lparr>output_buffer := [''old output''], output_buffer_size := 10\<rparr>)
         (CHR 0x1B # ''[2Jb''))
    = CHR 0x1B # ''[2Jb''"
proof -
  have h: "contains_bytes ERASE_DISPLAY (CHR 0x1B # ''[2Jb'')"
    by (simp add: ERASE_DISPLAY_def)
  from h erase_display_clears_buffer
    [of "CHR 0x1B # ''[2Jb''"
        "(new_session ''s1'' ''alice'' \<lparr>backend = fake_init\<rparr> ''bash'' 0)
            \<lparr>output_buffer := [''old output''], output_buffer_size := 10\<rparr>"]
  show ?thesis by (simp add: OUTPUT_BUFFER_MAX_BYTES_def)
qed


section \<open>The fake PTY backend\<close>

lemma slice_join: "slice_to data n @ slice_from data n = data"
  by (simp add: slice_to_def slice_from_def)

lemma slice_to_length: "0 \<le> n \<Longrightarrow> int (length (slice_to data n)) \<le> n"
  by (simp add: slice_to_def)

lemma fake_read_length: "0 \<le> sz \<Longrightarrow> int (length (fst (fake_read b sz))) \<le> sz"
  by (simp add: fake_read_def Let_def slice_to_length)

lemma fake_read_alive: "alive (snd (fake_read b sz)) = alive b"
  by (simp add: fake_read_def Let_def)

lemma fake_read_conserve:
  "alive b \<Longrightarrow>
   fst (fake_read b sz) @ concat (output_queue (snd (fake_read b sz))) = concat (output_queue b)"
  by (cases "output_queue b") (simp_all add: fake_read_def Let_def slice_join)

lemma run_ops_conserve:
  "alive b \<Longrightarrow>
   concat (fst (run_ops b ops)) @ concat (output_queue (snd (run_ops b ops))) =
     concat (output_queue b) @ concat (injected ops)"
proof (induction b ops rule: run_ops.induct)
  case (1 b)
  show ?case by simp
next
  case (2 b sz ops)
  obtain data b1 where r: "fake_read b sz = (data, b1)" by (cases "fake_read b sz")
  obtain out b2 where o: "run_ops b1 ops = (out, b2)" by (cases "run_ops b1 ops")
  from r "2.prems" fake_read_alive [of b sz] have a1: "alive b1" by simp
  from "2.IH" [OF r [symmetric] refl a1] o
  have "concat out @ concat (output_queue b2) = concat (output_queue b1) @ concat (injected ops)"
    by simp
  moreover from fake_read_conserve [OF "2.prems", of sz] r
  have "data @ concat (output_queue b1) = concat (output_queue b)" by simp
  ultimately show ?case by (simp add: r o)
next
  case (3 b data ops)
  then show ?case by (simp add: inject_output_def)
qed

lemma fake_read_pending:
  "alive b \<Longrightarrow> 0 < sz \<Longrightarrow> output_queue b \<noteq> [] \<Longrightarrow> pending (snd (fake_read b sz)) < pending b"
  by (cases "output_queue b")
     (auto simp: fake_read_def Let_def pending_def slice_from_def)

lemma read_times_drains:
  "alive b \<Longrightarrow> 0 < sz \<Longrightarrow> pending b \<le> n \<Longrightarrow>
   output_queue (snd (read_times n b sz)) = [] \<and>
   concat (fst (read_times n b sz)) = concat (output_queue b)"
proof (induction n arbitrary: b)
  case 0
  then show ?case by (simp add: pending_def)
next
  case (Suc n)
  obtain data b1 where r: "fake_read b sz = (data, b1)" by (cases "fake_read b sz")
  obtain out b2 where o: "read_times n b1 sz = (out, b2)" by (cases "read_times n b1 sz")
  from r Suc.prems fake_read_alive [of b sz] have a1: "alive b1" by simp
  have "pending b1 \<le> n"
  proof (cases "output_queue b = []")
    case True
    with r show ?thesis by (simp add: fake_read_def pending_def)
  next
    case False
    from fake_read_pending [OF Suc.prems(1,2) False] r Suc.prems(3) show ?thesis by simp
  qed
  from Suc.IH [OF a1 Suc.prems(2) this] o
  have "output_queue b2 = []" and "concat out = concat (output_queue b1)" by simp_all
  moreover from fake_read_conserve [OF Suc.prems(1), of sz] r
  have "data @ concat (output_queue b1) = concat (output_queue b)" by simp
  ultimately show ?case by (simp add: r o)
qed

text \<open>
  Claim C10. For the fake backend, \<open>read(size)\<close> with a non-negative \<open>size\<close> returns at
  most \<open>size\<close> bytes. When the oldest chunk is longer than \<open>size\<close>, its first \<open>size\<close>
  bytes are returned and the rest is put back at the front of the queue; a chunk that
  fits is returned whole. When the backend is not alive or nothing is queued, the
  result is empty and the backend is unchanged. No data is lost while the backend is
  alive: for every sequence of reads and injections, what the reads returned followed
  by what is still queued is what was queued at the start followed by what was
  injected, in order; and with a positive \<open>size\<close>, enough reads return exactly the
  queued bytes and leave the queue empty.
\<close>

theorem fake_read_never_loses_data:
  "(0 \<le> sz \<longrightarrow> int (length (fst (fake_read b sz))) \<le> sz)
 \<and> (alive b \<and> output_queue b = d # q \<and> 0 \<le> sz \<and> sz < int (length d) \<longrightarrow>
      fake_read b sz = (take (nat sz) d, b\<lparr>output_queue := drop (nat sz) d # q\<rparr>))
 \<and> (alive b \<and> output_queue b = d # q \<and> int (length d) \<le> sz \<longrightarrow>
      fake_read b sz = (d, b\<lparr>output_queue := q\<rparr>))
 \<and> (\<not> alive b \<or> output_queue b = [] \<longrightarrow> fake_read b sz = ([], b))
 \<and> (alive b \<longrightarrow>
      concat (fst (run_ops b ops)) @ concat (output_queue (snd (run_ops b ops))) =
        concat (output_queue b) @ concat (injected ops))
 \<and> (alive b \<and> 0 < sz \<and> pending b \<le> n \<longrightarrow>
      concat (fst (read_times n b sz)) = concat (output_queue b)
    \<and> output_queue (snd (read_times n b sz)) = [])"
proof -
  have len: "0 \<le> sz \<longrightarrow> int (length (fst (fake_read b sz))) \<le> sz"
    by (simp add: fake_read_length)
  have split: "alive b \<and> output_queue b = d # q \<and> 0 \<le> sz \<and> sz < int (length d) \<longrightarrow>
      fake_read b sz = (take (nat sz) d, b\<lparr>output_queue := drop (nat sz) d # q\<rparr>)"
    by (simp add: fake_read_def Let_def slice_to_def slice_from_def)
  have whole: "alive b \<and> output_queue b = d # q \<and> int (length d) \<le> sz \<longrightarrow>
      fake_read b sz = (d, b\<lparr>output_queue := q\<rparr>)"
    by (simp add: fake_read_def Let_def)
  have none: "\<not> alive b \<or> output_queue b = [] \<longrightarrow> fake_read b sz = ([], b)"
    by (auto simp: fake_read_def)
  have ops: "alive b \<longrightarrow>
      concat (fst (run_ops b ops)) @ concat (output_queue (snd (run_ops b ops))) =
        concat (output_queue b) @ concat (injected ops)"
    by (simp add: run_ops_conserve)
  have drain: "alive b \<and> 0 < sz \<and> pending b \<le> n \<longrightarrow>
      concat (fst (read_times n b sz)) = concat (output_queue b)
    \<and> output_queue (snd (read_times n b sz)) = []"
    using read_times_drains [of b sz n] by simp
  from len split whole none ops drain show ?thesis by blast
qed


theorem fake_read_never_loses_data_witness:
  "fake_read (fake_init\<lparr>alive := True, output_queue := [''hello world'', ''!'']\<rparr>) 4 =
     (''hell'', fake_init\<lparr>alive := True, output_queue := [''o world'', ''!'']\<rparr>)
 \<and> fake_read (fake_init\<lparr>alive := True, output_queue := [''hello world'', ''!'']\<rparr>) 20 =
     (''hello world'', fake_init\<lparr>alive := True, output_queue := [''!'']\<rparr>)
 \<and> fake_read (fake_init\<lparr>output_queue := [''hello world'', ''!'']\<rparr>) 4 =
     ([], fake_init\<lparr>output_queue := [''hello world'', ''!'']\<rparr>)
 \<and> concat (fst (run_ops (fake_init\<lparr>alive := True, output_queue := [''hello world'', ''!'']\<rparr>)
                    [Read 4, Inject ''?'', Read 4]))
     @ concat (output_queue (snd (run_ops
                    (fake_init\<lparr>alive := True, output_queue := [''hello world'', ''!'']\<rparr>)
                    [Read 4, Inject ''?'', Read 4])))
     = ''hello world!?''
 \<and> concat (fst (read_times 14
       (fake_init\<lparr>alive := True, output_queue := [''hello world'', ''!'']\<rparr>) 4))
     = ''hello world!''
 \<and> output_queue (snd (read_times 14
       (fake_init\<lparr>alive := True, output_queue := [''hello world'', ''!'']\<rparr>) 4)) = []"
proof -
  let ?b = "fake_init\<lparr>alive := True, output_queue := [''hello world'', ''!'']\<rparr>"
  let ?dead = "fake_init\<lparr>output_queue := [''hello world'', ''!'']\<rparr>"
  let ?ops = "[Read 4, Inject ''?'', Read 4]"
  note main = fake_read_never_loses_data
  have live: "alive ?b" and q: "output_queue ?b = ''hello world'' # [''!'']"
    and dead: "\<not> alive ?dead" and pend: "pending ?b \<le> 14"
    by (simp_all add: fake_init_def pending_def)
  have a: "fake_read ?b 4 =
      (''hell'', fake_init\<lparr>alive := True, output_queue := [''o world'', ''!'']\<rparr>)"
    using main [of 4 ?b "''hello world''" "[''!'']" ?ops 14, THEN conjunct2, THEN conjunct1]
      live q by simp
  have b: "fake_read ?b 20 =
      (''hello world'', fake_init\<lparr>alive := True, output_queue := [''!'']\<rparr>)"
    using main [of 20 ?b "''hello world''" "[''!'']" ?ops 14,
        THEN conjunct2, THEN conjunct2, THEN conjunct1]
      live q by simp
  have c: "fake_read ?dead 4 = ([], ?dead)"
    using main [of 4 ?dead "''hello world''" "[''!'']" ?ops 14,
        THEN conjunct2, THEN conjunct2, THEN conjunct2, THEN conjunct1]
      dead by blast
  have d: "concat (fst (run_ops ?b ?ops)) @ concat (output_queue (snd (run_ops ?b ?ops))) =
      ''hello world!?''"
    using main [of 4 ?b "''hello world''" "[''!'']" ?ops 14,
        THEN conjunct2, THEN conjunct2, THEN conjunct2, THEN conjunct2, THEN conjunct1]
      live by (simp del: run_ops.simps)
  have e: "concat (fst (read_times 14 ?b 4)) = ''hello world!''
         \<and> output_queue (snd (read_times 14 ?b 4)) = []"
    using main [of 4 ?b "''hello world''" "[''!'']" ?ops 14,
        THEN conjunct2, THEN conjunct2, THEN conjunct2, THEN conjunct2, THEN conjunct2]
      live pend by simp
  from a b c d e show ?thesis by (simp only: simp_thms)
qed


section \<open>The example registries\<close>

lemma fcard_fset_of_list_distinct: "distinct xs \<Longrightarrow> fcard (fset_of_list xs) = length xs"
  by (simp add: fcard.rep_eq fset_of_list.rep_eq distinct_card)

lemma inj_example_id: "inj example_id"
proof (rule injI)
  fix i j assume "example_id i = example_id j"
  then have "length (example_id i) = length (example_id j)" by simp
  then show "i = j" by (simp add: example_id_def)
qed

lemma inj_example_user: "inj example_user"
proof (rule injI)
  fix i j assume "example_user i = example_user j"
  then have "length (example_user i) = length (example_user j)" by simp
  then show "i = j" by (simp add: example_user_def)
qed

lemma distinct_example_ids: "distinct (map example_id [a..<b])"
  by (simp add: distinct_map inj_on_subset [OF inj_example_id])

lemma fcard_example_ids: "fcard (fset_of_list (map example_id [a..<b])) = b - a"
  by (simp only: fcard_fset_of_list_distinct [OF distinct_example_ids] length_map length_upt)

lemma crowded_count: "fcard (fmdom (sessions (crowded_registry users per))) = users * per"
proof -
  have "fmdom (sessions (crowded_registry users per)) =
      fset_of_list (map example_id [0..<users * per])"
    by (simp add: crowded_registry_def comp_def)
  then show ?thesis
    by (simp only: fcard_example_ids)
qed

lemma map_of_example_user:
  "map_of (map (\<lambda>j. (example_user j, g j)) xs) (example_user k) =
     (if k \<in> set xs then Some (g k) else None)"
  using inj_example_user by (induction xs) (auto dest: injD)

lemma map_of_other_user:
  "CHR ''u'' \<notin> set uid \<Longrightarrow> map_of (map (\<lambda>j. (example_user j, g j)) xs) uid = None"
  by (induction xs) (auto simp: example_user_def)

lemma crowded_user:
  "k < users \<Longrightarrow> get_user_set (crowded_registry users per) (example_user k) =
     fset_of_list (map example_id [k * per..<Suc k * per])"
  by (simp add: get_user_set_def crowded_registry_def fmlookup_of_list map_of_example_user)

lemma crowded_user_count:
  "k < users \<Longrightarrow> fcard (get_user_set (crowded_registry users per) (example_user k)) = per"
  by (simp only: crowded_user fcard_example_ids) simp

lemma crowded_other_user:
  "CHR ''u'' \<notin> set uid \<Longrightarrow> get_user_set (crowded_registry users per) uid = {||}"
  by (simp add: get_user_set_def crowded_registry_def fmlookup_of_list map_of_other_user)

lemma crowded_fresh_id:
  "CHR ''s'' \<notin> set k \<Longrightarrow> k |\<notin>| fmdom (sessions (crowded_registry users per))"
  by (auto simp: crowded_registry_def example_id_def fset_of_list.rep_eq)


section \<open>The session registry: creating a session\<close>

text \<open>
  Claim C3. With the limits 10 per user and 100 in total, \<open>create_session\<close> checks the
  user's limit first and the global limit second. When either is reached it raises the
  corresponding \<open>ValueError\<close> and the registry is unchanged: both dictionaries are as
  before and the PTY factory has not been called. Otherwise the factory is called once
  with the requested shell and geometry; when it returns a PTY manager, the new
  session carries the id drawn from \<open>uuid4\<close>, is stored under that id and the id is
  added to the user's set, nothing else in the two dictionaries changes, and with an
  id not yet in use the number of sessions grows by one.
\<close>

theorem create_session_capacity:
  "MAX_SESSIONS_PER_USER = 10 \<and> MAX_TOTAL_SESSIONS = 100
 \<and> (MAX_SESSIONS_PER_USER \<le> fcard (get_user_set reg uid) \<longrightarrow>
      create_session pty_factory uuid4 now reg uid shell c r =
        (Inl (ValueError ''Maximum sessions (10) reached for user''), reg))
 \<and> (fcard (get_user_set reg uid) < MAX_SESSIONS_PER_USER
      \<and> MAX_TOTAL_SESSIONS \<le> fcard (fmdom (sessions reg)) \<longrightarrow>
      create_session pty_factory uuid4 now reg uid shell c r =
        (Inl (ValueError ''Server session limit reached''), reg))
 \<and> (fcard (get_user_set reg uid) < MAX_SESSIONS_PER_USER
      \<and> fcard (fmdom (sessions reg)) < MAX_TOTAL_SESSIONS
      \<and> pty_factory shell c r = Inr pty \<longrightarrow>
      (let (res, reg1) = create_session pty_factory uuid4 now reg uid shell c r
       in res = Inr (new_session uuid4 uid pty
                       (case shell of None \<Rightarrow> ''default''
                        | Some sh \<Rightarrow> if sh = [] then ''default'' else sh) now)
        \<and> fmlookup (sessions reg1) uuid4 =
            Some (new_session uuid4 uid pty
                    (case shell of None \<Rightarrow> ''default''
                     | Some sh \<Rightarrow> if sh = [] then ''default'' else sh) now)
        \<and> pty_factory_calls reg1 = pty_factory_calls reg @ [(shell, c, r)]
        \<and> fmlookup (user_sessions reg1) uid = Some (finsert uuid4 (get_user_set reg uid))
        \<and> (\<forall>k. k \<noteq> uuid4 \<longrightarrow> fmlookup (sessions reg1) k = fmlookup (sessions reg) k)
        \<and> (\<forall>u. u \<noteq> uid \<longrightarrow> fmlookup (user_sessions reg1) u = fmlookup (user_sessions reg) u)
        \<and> (uuid4 |\<notin>| fmdom (sessions reg) \<longrightarrow>
             fcard (fmdom (sessions reg1)) = Suc (fcard (fmdom (sessions reg))))))"
proof -
  have limits: "MAX_SESSIONS_PER_USER = 10 \<and> MAX_TOTAL_SESSIONS = 100"
    by (simp add: MAX_SESSIONS_PER_USER_def MAX_TOTAL_SESSIONS_def)
  have user: "create_session pty_factory uuid4 now reg uid shell c r =
        (Inl (ValueError ''Maximum sessions (10) reached for user''), reg)"
    if "MAX_SESSIONS_PER_USER \<le> fcard (get_user_set reg uid)"
    using that by (simp add: create_session_def)
  have total: "create_session pty_factory uuid4 now reg uid shell c r =
        (Inl (ValueError ''Server session limit reached''), reg)"
    if "fcard (get_user_set reg uid) < MAX_SESSIONS_PER_USER"
      "MAX_TOTAL_SESSIONS \<le> fcard (fmdom (sessions reg))"
    using that by (simp add: create_session_def)
  have ok: "let (res, reg1) = create_session pty_factory uuid4 now reg uid shell c r
       in res = Inr (new_session uuid4 uid pty
                       (case shell of None \<Rightarrow> ''default''
                        | Some sh \<Rightarrow> if sh = [] then ''default'' else sh) now)
        \<and> fmlookup (sessions reg1) uuid4 =
            Some (new_session uuid4 uid pty
                    (case shell of None \<Rightarrow> ''default''
                     | Some sh \<Rightarrow> if sh = [] then ''default'' else sh) now)
        \<and> pty_factory_calls reg1 = pty_factory_calls reg @ [(shell, c, r)]
        \<and> fmlookup (user_sessions reg1) uid = Some (finsert uuid4 (get_user_set reg uid))
        \<and> (\<forall>k. k \<noteq> uuid4 \<longrightarrow> fmlookup (sessions reg1) k = fmlookup (sessions reg) k)
        \<and> (\<forall>u. u \<noteq> uid \<longrightarrow> fmlookup (user_sessions reg1) u = fmlookup (user_sessions reg) u)
        \<and> (uuid4 |\<notin>| fmdom (sessions reg) \<longrightarrow>
             fcard (fmdom (sessions reg1)) = Suc (fcard (fmdom (sessions reg))))"
    if "fcard (get_user_set reg uid) < MAX_SESSIONS_PER_USER"
      "fcard (fmdom (sessions reg)) < MAX_TOTAL_SESSIONS"
      "pty_factory shell c r = Inr pty"
    using that
    by (simp add: create_session_def Let_def get_user_set_def fcard_finsert_disjoint)
  from limits user total ok show ?thesis by blast
qed

theorem create_session_capacity_witness:
  "MAX_SESSIONS_PER_USER \<le> fcard (get_user_set (crowded_registry 1 10) (example_user 0))
 \<and> create_session example_factory ''new-id'' 7 (crowded_registry 1 10) (example_user 0)
      (Some ''bash'') 120 30 =
      (Inl (ValueError ''Maximum sessions (10) reached for user''), crowded_registry 1 10)
 \<and> fcard (get_user_set (crowded_registry 10 10) ''alice'') < MAX_SESSIONS_PER_USER
 \<and> MAX_TOTAL_SESSIONS \<le> fcard (fmdom (sessions (crowded_registry 10 10)))
 \<and> create_session example_factory ''new-id'' 7 (crowded_registry 10 10) ''alice''
      (Some ''bash'') 120 30 =
      (Inl (ValueError ''Server session limit reached''), crowded_registry 10 10)
 \<and> fcard (fmdom (sessions (crowded_registry 1 2))) < MAX_TOTAL_SESSIONS
 \<and> ''new-id'' |\<notin>| fmdom (sessions (crowded_registry 1 2))
 \<and> pty_factory_calls (snd (create_session example_factory ''new-id'' 7 (crowded_registry 1 2)
      ''alice'' (Some ''bash'') 120 30)) = [(Some ''bash'', 120, 30)]
 \<and> fmlookup (user_sessions (snd (create_session example_factory ''new-id'' 7
      (crowded_registry 1 2) ''alice'' (Some ''bash'') 120 30))) ''alice'' = Some {|''new-id''|}
 \<and> fcard (fmdom (sessions (snd (create_session example_factory ''new-id'' 7
      (crowded_registry 1 2) ''alice'' (Some ''bash'') 120 30)))) = 3"
proof -
  note main = create_session_capacity
  have full_user:
    "MAX_SESSIONS_PER_USER \<le> fcard (get_user_set (crowded_registry 1 10) (example_user 0))"
    by (simp add: crowded_user_count MAX_SESSIONS_PER_USER_def)
  have alice: "get_user_set (crowded_registry users per) ''alice'' = {||}" for users per
    by (rule crowded_other_user) simp
  have few: "fcard (get_user_set (crowded_registry users per) ''alice'') < MAX_SESSIONS_PER_USER"
    for users per
    by (simp add: alice MAX_SESSIONS_PER_USER_def fcard_fempty)
  have full: "MAX_TOTAL_SESSIONS \<le> fcard (fmdom (sessions (crowded_registry 10 10)))"
    by (simp add: crowded_count MAX_TOTAL_SESSIONS_def)
  have room: "fcard (fmdom (sessions (crowded_registry 1 2))) < MAX_TOTAL_SESSIONS"
    by (simp add: crowded_count MAX_TOTAL_SESSIONS_def)
  have fresh: "''new-id'' |\<notin>| fmdom (sessions (crowded_registry 1 2))"
    by (rule crowded_fresh_id) simp
  have spawn: "example_factory (Some ''bash'') 120 30 =
      Inr \<lparr>backend = fake_init\<lparr>alive := True, rows := 30, cols := 120\<rparr>\<rparr>"
    by (simp add: example_factory_def)
  have calls: "pty_factory_calls (crowded_registry users per) = []" for users per
    by (simp add: crowded_registry_def registry_init_def)
  have a: "create_session example_factory ''new-id'' 7 (crowded_registry 1 10) (example_user 0)
      (Some ''bash'') 120 30 =
      (Inl (ValueError ''Maximum sessions (10) reached for user''), crowded_registry 1 10)"
    using main [of "crowded_registry 1 10" "example_user 0" example_factory "''new-id''" 7
        "Some ''bash''" 120 30, THEN conjunct2, THEN conjunct2, THEN conjunct1] full_user
    by blast
  have b: "create_session example_factory ''new-id'' 7 (crowded_registry 10 10) ''alice''
      (Some ''bash'') 120 30 =
      (Inl (ValueError ''Server session limit reached''), crowded_registry 10 10)"
    using main [of "crowded_registry 10 10" "''alice''" example_factory "''new-id''" 7
        "Some ''bash''" 120 30, THEN conjunct2, THEN conjunct2, THEN conjunct2, THEN conjunct1]
      few full
    by blast
  have c: "pty_factory_calls (snd (create_session example_factory ''new-id'' 7
        (crowded_registry 1 2) ''alice'' (Some ''bash'') 120 30)) = [(Some ''bash'', 120, 30)]
    \<and> fmlookup (user_sessions (snd (create_session example_factory ''new-id'' 7
        (crowded_registry 1 2) ''alice'' (Some ''bash'') 120 30))) ''alice'' = Some {|''new-id''|}
    \<and> fcard (fmdom (sessions (snd (create_session example_factory ''new-id'' 7
        (crowded_registry 1 2) ''alice'' (Some ''bash'') 120 30)))) = 3"
    using main [of "crowded_registry 1 2" "''alice''" example_factory "''new-id''" 7
        "Some ''bash''" 120 30 "\<lparr>backend = fake_init\<lparr>alive := True, rows := 30, cols := 120\<rparr>\<rparr>",
        THEN conjunct2, THEN conjunct2, THEN conjunct2, THEN conjunct2]
      few [of 1 2] room spawn fresh
    by (simp add: split_beta Let_def alice calls crowded_count)
  from full_user a few full b room fresh c show ?thesis by (simp only: simp_thms)
qed


section \<open>The session registry: reconnecting\<close>

text \<open>
  Claim C6. For every registry state, \<open>reconnect_session\<close> with a \<open>user_id\<close> that differs
  from the session's returns no session and leaves the registry and every socket as
  they were, exactly as it does for an unknown session id; whenever it does return a
  session, the caller is the session's owner. So the result for another user's session
  and the result for an id that does not exist are the same, in the value returned and
  in the state left behind.
\<close>

theorem reconnect_hides_ownership:
  "(fmlookup (sessions reg) sid = None \<longrightarrow>
      reconnect_session reg now sid uid ws = (None, reg))
 \<and> (fmlookup (sessions reg) sid = Some s \<and> user_id s \<noteq> uid \<longrightarrow>
      reconnect_session reg now sid uid ws = (None, reg))
 \<and> (fmlookup (sessions reg) sid = Some s \<and> fst (reconnect_session reg now sid uid ws) \<noteq> None \<longrightarrow>
      user_id s = uid)
 \<and> (fmlookup (sessions reg) sid = Some s \<and> user_id s \<noteq> uid
      \<and> fmlookup (sessions reg') sid = None \<longrightarrow>
      fst (reconnect_session reg now sid uid ws) = fst (reconnect_session reg' now sid uid ws)
    \<and> snd (reconnect_session reg now sid uid ws) = reg
    \<and> snd (reconnect_session reg' now sid uid ws) = reg')"
proof -
  have unknown: "reconnect_session reg now sid uid ws = (None, reg)"
    if "fmlookup (sessions reg) sid = None" for reg
    using that by (simp add: reconnect_session_def)
  have denied: "reconnect_session reg now sid uid ws = (None, reg)"
    if "fmlookup (sessions reg) sid = Some s" "user_id s \<noteq> uid"
    using that by (simp add: reconnect_session_def)
  have owner: "user_id s = uid"
    if "fmlookup (sessions reg) sid = Some s"
      "fst (reconnect_session reg now sid uid ws) \<noteq> None"
  proof (rule ccontr)
    assume "user_id s \<noteq> uid"
    with that(1) have "fst (reconnect_session reg now sid uid ws) = None"
      by (simp add: denied)
    with that(2) show False by simp
  qed
  from unknown [of reg] unknown [of reg'] denied owner show ?thesis by simp
qed

theorem reconnect_hides_ownership_witness:
  "fmlookup (sessions example_registry) ''s1'' = Some example_session
 \<and> user_id example_session \<noteq> ''mallory''
 \<and> fmlookup (sessions registry_init) ''s1'' = None
 \<and> reconnect_session example_registry 5 ''s1'' ''mallory'' 2 = (None, example_registry)
 \<and> reconnect_session registry_init 5 ''s1'' ''mallory'' 2 = (None, registry_init)
 \<and> fst (reconnect_session example_registry 5 ''s1'' ''alice'' 2) \<noteq> None
 \<and> user_id example_session = ''alice''"
proof -
  note main = reconnect_hides_ownership
  have s: "fmlookup (sessions example_registry) ''s1'' = Some example_session"
    and other: "user_id example_session \<noteq> ''mallory''"
    and unknown: "fmlookup (sessions registry_init) ''s1'' = None"
    by (simp_all add: example_registry_def example_session_def registry_init_def new_session_def)
  have ok: "fst (reconnect_session example_registry 5 ''s1'' ''alice'' 2) \<noteq> None"
    by (simp add: reconnect_session_def example_registry_def example_session_def
        registry_init_def new_session_def example_pty_def pty_is_alive_def fake_is_alive_def
        Let_def)
  have a: "reconnect_session registry_init 5 ''s1'' ''mallory'' 2 = (None, registry_init)"
    using main [of registry_init "''s1''" 5 "''mallory''" 2 example_session example_registry,
        THEN conjunct1] unknown by blast
  have b: "reconnect_session example_registry 5 ''s1'' ''mallory'' 2 = (None, example_registry)"
    using main [of example_registry "''s1''" 5 "''mallory''" 2 example_session registry_init,
        THEN conjunct2, THEN conjunct1] s other by blast
  have c: "user_id example_session = ''alice''"
    using main [of example_registry "''s1''" 5 "''alice''" 2 example_session registry_init,
        THEN conjunct2, THEN conjunct2, THEN conjunct1] s ok by blast
  from s other unknown a b ok c show ?thesis by (simp only: simp_thms)
qed

lemma destroy_session_sessions:
  "sessions (destroy_session reg sid) = fmdrop sid (sessions reg)"
  by (cases "fmlookup (sessions reg) sid")
     (auto simp: destroy_session_def Let_def fmdrop_idle' fmdom'_notI split: option.splits)

lemma destroy_session_user:
  "fmlookup (sessions reg) sid = Some s \<Longrightarrow>
   fmlookup (user_sessions (destroy_session reg sid)) u =
     (if u = user_id s
      then (case fmlookup (user_sessions reg) u of
              None \<Rightarrow> None
            | Some ids \<Rightarrow> if ids |-| {|sid|} = {||} then None else Some (ids |-| {|sid|}))
      else fmlookup (user_sessions reg) u)"
  by (auto simp: destroy_session_def Let_def split: option.splits)

lemma destroy_session_closed_ptys:
  "fmlookup (sessions reg) sid = Some s \<Longrightarrow>
   closed_ptys (destroy_session reg sid) = closed_ptys reg @ [pty_close (pty_manager s)]"
  by (auto simp: destroy_session_def Let_def split: option.splits)

text \<open>
  Claim C7. \<open>reconnect_session\<close> by the owner on a session whose PTY is no longer alive
  returns no session and destroys the session: afterwards the id is absent from the
  session map and from the owner's set of ids, the owner's entry in the user index is
  never left empty (it is removed when this was the owner's last session), and the
  PTY manager has been closed.
\<close>

theorem reconnect_dead_pty_destroys:
  "fmlookup (sessions reg) sid = Some s \<and> user_id s = uid \<and> \<not> pty_is_alive (pty_manager s) \<longrightarrow>
     fst (reconnect_session reg now sid uid ws) = None
   \<and> snd (reconnect_session reg now sid uid ws) = destroy_session reg sid
   \<and> fmlookup (sessions (destroy_session reg sid)) sid = None
   \<and> sid |\<notin>| get_user_set (destroy_session reg sid) uid
   \<and> get_user_set (destroy_session reg sid) uid = get_user_set reg uid |-| {|sid|}
   \<and> fmlookup (user_sessions (destroy_session reg sid)) uid \<noteq> Some {||}
   \<and> (get_user_set reg uid |-| {|sid|} = {||} \<longrightarrow>
        fmlookup (user_sessions (destroy_session reg sid)) uid = None)
   \<and> closed_ptys (destroy_session reg sid) = closed_ptys reg @ [pty_close (pty_manager s)]"
proof (intro impI, elim conjE)
  assume s: "fmlookup (sessions reg) sid = Some s" and u: "user_id s = uid"
    and dead: "\<not> pty_is_alive (pty_manager s)"
  have r: "reconnect_session reg now sid uid ws = (None, destroy_session reg sid)"
    using s u dead by (simp add: reconnect_session_def)
  have gone: "fmlookup (sessions (destroy_session reg sid)) sid = None"
    by (simp add: destroy_session_sessions)
  have idx: "fmlookup (user_sessions (destroy_session reg sid)) uid =
      (case fmlookup (user_sessions reg) uid of
         None \<Rightarrow> None
       | Some ids \<Rightarrow> if ids |-| {|sid|} = {||} then None else Some (ids |-| {|sid|}))"
    using destroy_session_user [OF s, of uid] u by simp
  have set: "get_user_set (destroy_session reg sid) uid = get_user_set reg uid |-| {|sid|}"
    by (auto simp: get_user_set_def idx split: option.splits)
  have pruned: "fmlookup (user_sessions (destroy_session reg sid)) uid \<noteq> Some {||}"
    by (auto simp: idx split: option.splits)
  have empty: "fmlookup (user_sessions (destroy_session reg sid)) uid = None"
    if "get_user_set reg uid |-| {|sid|} = {||}"
    using that by (auto simp: idx get_user_set_def split: option.splits)
  from r gone set pruned empty destroy_session_closed_ptys [OF s]
  show "fst (reconnect_session reg now sid uid ws) = None
   \<and> snd (reconnect_session reg now sid uid ws) = destroy_session reg sid
   \<and> fmlookup (sessions (destroy_session reg sid)) sid = None
   \<and> sid |\<notin>| get_user_set (destroy_session reg sid) uid
   \<and> get_user_set (destroy_session reg sid) uid = get_user_set reg uid |-| {|sid|}
   \<and> fmlookup (user_sessions (destroy_session reg sid)) uid \<noteq> Some {||}
   \<and> (get_user_set reg uid |-| {|sid|} = {||} \<longrightarrow>
        fmlookup (user_sessions (destroy_session reg sid)) uid = None)
   \<and> closed_ptys (destroy_session reg sid) = closed_ptys reg @ [pty_close (pty_manager s)]"
    by simp
qed

theorem reconnect_dead_pty_destroys_witness:
  "fmlookup (sessions stale_registry) ''s1'' =
     Some (example_session\<lparr>pty_manager := pty_close example_pty\<rparr>)
 \<and> \<not> pty_is_alive (pty_close example_pty)
 \<and> get_user_set stale_registry ''alice'' |-| {|''s1''|} = {||}
 \<and> fst (reconnect_session stale_registry 5 ''s1'' ''alice'' 2) = None
 \<and> fmlookup (sessions (snd (reconnect_session stale_registry 5 ''s1'' ''alice'' 2))) ''s1'' = None
 \<and> fmlookup (user_sessions (snd (reconnect_session stale_registry 5 ''s1'' ''alice'' 2))) ''alice''
     = None"
proof -
  let ?s = "example_session\<lparr>pty_manager := pty_close example_pty\<rparr>"
  have s: "fmlookup (sessions stale_registry) ''s1'' = Some ?s"
    and u: "user_id ?s = ''alice''"
    and dead: "\<not> pty_is_alive (pty_manager ?s)"
    and last: "get_user_set stale_registry ''alice'' |-| {|''s1''|} = {||}"
    by (simp_all add: stale_registry_def example_session_def registry_init_def new_session_def
        pty_is_alive_def pty_close_def fake_is_alive_def fake_close_def get_user_set_def)
  from reconnect_dead_pty_destroys [of stale_registry "''s1''" ?s "''alice''" 5 2] s u dead last
  have "fst (reconnect_session stale_registry 5 ''s1'' ''alice'' 2) = None
    \<and> fmlookup (sessions (snd (reconnect_session stale_registry 5 ''s1'' ''alice'' 2))) ''s1'' = None
    \<and> fmlookup (user_sessions (snd (reconnect_session stale_registry 5 ''s1'' ''alice'' 2)))
        ''alice'' = None"
    by simp
  with s dead last show ?thesis by simp
qed

lemma reconnect_session_live:
  "fmlookup (sessions reg) sid = Some s \<Longrightarrow> user_id s = uid \<Longrightarrow> pty_is_alive (pty_manager s) \<Longrightarrow>
   reconnect_session reg now sid uid ws =
     (Some (s\<lparr>websocket := Some ws, is_connected := True, last_activity := now\<rparr>),
      reg\<lparr>socket_closes :=
            socket_closes reg @
              (case websocket s of
                 None \<Rightarrow> []
               | Some old \<Rightarrow>
                   if is_connected s then [(old, 4000, Some ''Reconnected from another client'')]
                   else []),
          sessions :=
            fmupd sid (s\<lparr>websocket := Some ws, is_connected := True, last_activity := now\<rparr>)
              (sessions reg)\<rparr>)"
  by (simp add: reconnect_session_def Let_def touch_def split: option.splits)

text \<open>
  Claim C9. When the owner reconnects to a live session that still has a socket bound
  and connected, that socket is closed with code 4000 (\<open>Reconnected from another
  client\<close>), the new socket is bound, \<open>is_connected\<close> is set and the activity timestamp
  is the time of the call; the session returned is the one stored. After two reconnects
  in a row by the owner, the socket bound is the second one, and the first one has been
  closed with code 4000.
\<close>

theorem reconnect_supersedes_socket:
  "(fmlookup (sessions reg) sid = Some s \<and> user_id s = uid \<and> pty_is_alive (pty_manager s)
      \<and> websocket s = Some old \<and> is_connected s \<longrightarrow>
      (let (res, reg1) = reconnect_session reg now sid uid ws
       in res = Some (s\<lparr>websocket := Some ws, is_connected := True, last_activity := now\<rparr>)
        \<and> fmlookup (sessions reg1) sid = res
        \<and> socket_closes reg1 =
            socket_closes reg @ [(old, 4000, Some ''Reconnected from another client'')]))
 \<and> (fmlookup (sessions reg) sid = Some s \<and> user_id s = uid \<and> pty_is_alive (pty_manager s) \<longrightarrow>
      (let (res1, reg1) = reconnect_session reg t1 sid uid ws1;
           (res2, reg2) = reconnect_session reg1 t2 sid uid ws2
       in res1 = Some (s\<lparr>websocket := Some ws1, is_connected := True, last_activity := t1\<rparr>)
        \<and> res2 = Some (s\<lparr>websocket := Some ws2, is_connected := True, last_activity := t2\<rparr>)
        \<and> fmlookup (sessions reg2) sid = res2
        \<and> socket_closes reg2 =
            socket_closes reg1 @ [(ws1, 4000, Some ''Reconnected from another client'')]))"
proof (intro conjI impI; elim conjE)
  assume s: "fmlookup (sessions reg) sid = Some s" and u: "user_id s = uid"
    and live: "pty_is_alive (pty_manager s)"
    and old: "websocket s = Some old" "is_connected s"
  show "let (res, reg1) = reconnect_session reg now sid uid ws
       in res = Some (s\<lparr>websocket := Some ws, is_connected := True, last_activity := now\<rparr>)
        \<and> fmlookup (sessions reg1) sid = res
        \<and> socket_closes reg1 =
            socket_closes reg @ [(old, 4000, Some ''Reconnected from another client'')]"
    by (simp add: reconnect_session_live [OF s u live] old)
next
  assume s: "fmlookup (sessions reg) sid = Some s" and u: "user_id s = uid"
    and live: "pty_is_alive (pty_manager s)"
  let ?s1 = "s\<lparr>websocket := Some ws1, is_connected := True, last_activity := t1\<rparr>"
  obtain reg1 where r1: "reconnect_session reg t1 sid uid ws1 = (Some ?s1, reg1)"
    and s1: "fmlookup (sessions reg1) sid = Some ?s1"
    by (simp add: reconnect_session_live [OF s u live])
  have u1: "user_id ?s1 = uid" and live1: "pty_is_alive (pty_manager ?s1)"
    using u live by simp_all
  show "let (res1, reg1) = reconnect_session reg t1 sid uid ws1;
           (res2, reg2) = reconnect_session reg1 t2 sid uid ws2
       in res1 = Some (s\<lparr>websocket := Some ws1, is_connected := True, last_activity := t1\<rparr>)
        \<and> res2 = Some (s\<lparr>websocket := Some ws2, is_connected := True, last_activity := t2\<rparr>)
        \<and> fmlookup (sessions reg2) sid = res2
        \<and> socket_closes reg2 =
            socket_closes reg1 @ [(ws1, 4000, Some ''Reconnected from another client'')]"
    by (simp add: r1 reconnect_session_live [OF s1 u1 live1])
qed

theorem reconnect_supersedes_socket_witness:
  "fmlookup (sessions example_registry) ''s1'' = Some example_session
 \<and> user_id example_session = ''alice''
 \<and> pty_is_alive (pty_manager example_session)
 \<and> websocket example_session = Some 1 \<and> is_connected example_session
 \<and> socket_closes (snd (reconnect_session example_registry 5 ''s1'' ''alice'' 2)) =
     [(1, 4000, Some ''Reconnected from another client'')]
 \<and> fst (reconnect_session example_registry 5 ''s1'' ''alice'' 2) =
     Some (example_session\<lparr>websocket := Some 2, is_connected := True, last_activity := 5\<rparr>)
 \<and> fst (reconnect_session (snd (reconnect_session example_registry 5 ''s1'' ''alice'' 2)) 6
       ''s1'' ''alice'' 3) =
     Some (example_session\<lparr>websocket := Some 3, is_connected := True, last_activity := 6\<rparr>)
 \<and> socket_closes (snd (reconnect_session
       (snd (reconnect_session example_registry 5 ''s1'' ''alice'' 2)) 6 ''s1'' ''alice'' 3)) =
     [(1, 4000, Some ''Reconnected from another client''),
      (2, 4000, Some ''Reconnected from another client'')]"
proof -
  note main = reconnect_supersedes_socket
  have s: "fmlookup (sessions example_registry) ''s1'' = Some example_session"
    and u: "user_id example_session = ''alice''"
    and live: "pty_is_alive (pty_manager example_session)"
    and old: "websocket example_session = Some 1" "is_connected example_session"
    and none: "socket_closes example_registry = []"
    by (simp_all add: example_registry_def example_session_def registry_init_def new_session_def
        example_pty_def pty_is_alive_def fake_is_alive_def)
  have a: "socket_closes (snd (reconnect_session example_registry 5 ''s1'' ''alice'' 2)) =
       [(1, 4000, Some ''Reconnected from another client'')]
     \<and> fst (reconnect_session example_registry 5 ''s1'' ''alice'' 2) =
       Some (example_session\<lparr>websocket := Some 2, is_connected := True, last_activity := 5\<rparr>)"
    using main [of example_registry "''s1''" example_session "''alice''" 1 5 2 5 2 6 3,
        THEN conjunct1] s u live old
    by (simp add: split_beta Let_def none)
  have b: "fst (reconnect_session (snd (reconnect_session example_registry 5 ''s1'' ''alice'' 2)) 6
         ''s1'' ''alice'' 3) =
       Some (example_session\<lparr>websocket := Some 3, is_connected := True, last_activity := 6\<rparr>)
     \<and> socket_closes (snd (reconnect_session
         (snd (reconnect_session example_registry 5 ''s1'' ''alice'' 2)) 6 ''s1'' ''alice'' 3)) =
       [(1, 4000, Some ''Reconnected from another client''),
        (2, 4000, Some ''Reconnected from another client'')]"
    using main [of example_registry "''s1''" example_session "''alice''" 1 5 2 5 2 6 3,
        THEN conjunct2] s u live a
    by (simp add: split_beta Let_def)
  from s u live old a b show ?thesis by (simp only: simp_thms)
qed


section \<open>The output buffer\<close>

lemma flush_result:
  "\<not> ob_closed ob \<Longrightarrow>
   flush ob =
     ob\<lparr>flush_task := None, buffer := [],
        frames_sent := frames_sent ob @ (if buffer ob = [] then [] else [concat (buffer ob)])\<rparr>"
  by (cases "flush_task ob") (simp_all add: flush_def send_queued_def)

text \<open>
  Claim C5 (amended). On an output buffer that has not been closed: writing a chunk of
  at most 64 bytes flushes at once, so any pending delayed flush is cancelled and one
  frame goes out that holds whatever was already queued followed by the chunk (the
  chunk alone when nothing was queued). Writing a larger chunk sends nothing: the chunk
  is queued and, unless a flush is already scheduled, a delayed flush is scheduled one
  flush interval later (8 ms by default); when that time has come, everything queued
  at that point is sent concatenated as one frame, and before it nothing happens. An
  explicit flush cancels any pending delayed flush and sends the queued data as one
  frame immediately.
\<close>

theorem output_buffer_write_policy:
  "(\<not> ob_closed ob \<longrightarrow>
      (length data \<le> 64 \<longrightarrow>
         frames_sent (ob_write ob now data) = frames_sent ob @ [concat (buffer ob) @ data]
       \<and> buffer (ob_write ob now data) = []
       \<and> flush_task (ob_write ob now data) = None)
    \<and> (64 < length data \<longrightarrow>
         frames_sent (ob_write ob now data) = frames_sent ob
       \<and> buffer (ob_write ob now data) = buffer ob @ [data]
       \<and> flush_task (ob_write ob now data) =
           (case flush_task ob of
              None \<Rightarrow> Some (Sleeping (now + flush_interval ob))
            | Some task \<Rightarrow> Some task))
    \<and> (flush_task ob = Some (Sleeping wake) \<and> wake \<le> t \<and> buffer ob \<noteq> [] \<longrightarrow>
         frames_sent (run_timers ob t) = frames_sent ob @ [concat (buffer ob)]
       \<and> buffer (run_timers ob t) = []
       \<and> flush_task (run_timers ob t) = None)
    \<and> (flush_task ob = Some (Sleeping wake) \<and> t < wake \<longrightarrow> run_timers ob t = ob)
    \<and> frames_sent (flush ob) =
        frames_sent ob @ (if buffer ob = [] then [] else [concat (buffer ob)])
    \<and> buffer (flush ob) = []
    \<and> flush_task (flush ob) = None
    \<and> run_timers (flush ob) t = flush ob)
 \<and> flush_interval (output_buffer_init ws DEFAULT_FLUSH_INTERVAL_MS) = 8 / 1000"
proof -
  have small: "frames_sent (ob_write ob now data) = frames_sent ob @ [concat (buffer ob) @ data]
       \<and> buffer (ob_write ob now data) = []
       \<and> flush_task (ob_write ob now data) = None"
    if "\<not> ob_closed ob" "length data \<le> 64"
    using that by (simp add: ob_write_def Let_def flush_result)
  have large: "frames_sent (ob_write ob now data) = frames_sent ob
       \<and> buffer (ob_write ob now data) = buffer ob @ [data]
       \<and> flush_task (ob_write ob now data) =
           (case flush_task ob of
              None \<Rightarrow> Some (Sleeping (now + flush_interval ob))
            | Some task \<Rightarrow> Some task)"
    if "\<not> ob_closed ob" "64 < length data"
    using that by (simp add: ob_write_def Let_def split: option.splits)
  have due: "frames_sent (run_timers ob t) = frames_sent ob @ [concat (buffer ob)]
       \<and> buffer (run_timers ob t) = []
       \<and> flush_task (run_timers ob t) = None"
    if "\<not> ob_closed ob" "flush_task ob = Some (Sleeping wake)" "wake \<le> t" "buffer ob \<noteq> []"
    using that by (simp add: run_timers_def delayed_flush_def send_queued_def)
  have early: "run_timers ob t = ob" if "flush_task ob = Some (Sleeping wake)" "t < wake"
    using that by (simp add: run_timers_def)
  have explicit: "frames_sent (flush ob) =
        frames_sent ob @ (if buffer ob = [] then [] else [concat (buffer ob)])
    \<and> buffer (flush ob) = []
    \<and> flush_task (flush ob) = None
    \<and> run_timers (flush ob) t = flush ob"
    if "\<not> ob_closed ob"
    using that by (simp add: flush_result run_timers_def)
  have interval: "flush_interval (output_buffer_init ws DEFAULT_FLUSH_INTERVAL_MS) = 8 / 1000"
    by (simp add: output_buffer_init_def DEFAULT_FLUSH_INTERVAL_MS_def)
  from small large due early explicit interval show ?thesis by blast
qed

text \<open>
  Claim C5 as stated says that a chunk of at most 64 bytes is sent on its own, not
  combined with other queued data. After a 100-byte write has been queued, a 2-byte
  write one millisecond later goes out in the same frame as the 100 bytes.
\<close>

theorem small_write_coalesced_counterexample:
  "length ''ls'' \<le> 64
 \<and> \<not> ob_closed (ob_write (output_buffer_init 1 DEFAULT_FLUSH_INTERVAL_MS) 0 (replicate 100 (CHR ''x'')))
 \<and> frames_sent
      (ob_write (ob_write (output_buffer_init 1 DEFAULT_FLUSH_INTERVAL_MS) 0
                   (replicate 100 (CHR ''x''))) (1 / 1000) ''ls'')
    = [replicate 100 (CHR ''x'') @ ''ls'']
 \<and> frames_sent
      (ob_write (ob_write (output_buffer_init 1 DEFAULT_FLUSH_INTERVAL_MS) 0
                   (replicate 100 (CHR ''x''))) (1 / 1000) ''ls'')
    \<noteq> frames_sent (ob_write (output_buffer_init 1 DEFAULT_FLUSH_INTERVAL_MS) 0
                      (replicate 100 (CHR ''x''))) @ [''ls'']"
  by (simp add: ob_write_def flush_def send_queued_def output_buffer_init_def Let_def)

theorem output_buffer_write_policy_witness:
  "\<not> ob_closed (output_buffer_init 1 DEFAULT_FLUSH_INTERVAL_MS)
 \<and> frames_sent (ob_write (output_buffer_init 1 DEFAULT_FLUSH_INTERVAL_MS) 0 ''ls'') = [''ls'']
 \<and> flush_task (ob_write (output_buffer_init 1 DEFAULT_FLUSH_INTERVAL_MS) 0
      (replicate 100 (CHR ''x''))) = Some (Sleeping (8 / 1000))
 \<and> frames_sent (ob_write (output_buffer_init 1 DEFAULT_FLUSH_INTERVAL_MS) 0
      (replicate 100 (CHR ''x''))) = []
 \<and> run_timers (ob_write (output_buffer_init 1 DEFAULT_FLUSH_INTERVAL_MS) 0
      (replicate 100 (CHR ''x''))) (7 / 1000)
    = ob_write (output_buffer_init 1 DEFAULT_FLUSH_INTERVAL_MS) 0 (replicate 100 (CHR ''x''))
 \<and> frames_sent (run_timers
      (ob_write (ob_write (output_buffer_init 1 DEFAULT_FLUSH_INTERVAL_MS) 0
         (replicate 100 (CHR ''x''))) (4 / 1000) (replicate 80 (CHR ''y''))) (8 / 1000))
    = [replicate 100 (CHR ''x'') @ replicate 80 (CHR ''y'')]
 \<and> frames_sent (flush
      (ob_write (output_buffer_init 1 DEFAULT_FLUSH_INTERVAL_MS) 0 (replicate 100 (CHR ''x''))))
    = [replicate 100 (CHR ''x'')]
 \<and> flush_task (flush
      (ob_write (output_buffer_init 1 DEFAULT_FLUSH_INTERVAL_MS) 0 (replicate 100 (CHR ''x''))))
    = None"
proof -
  define ob0 where "ob0 = output_buffer_init 1 DEFAULT_FLUSH_INTERVAL_MS"
  define X where "X = replicate 100 (CHR ''x'')"
  define Y where "Y = replicate 80 (CHR ''y'')"
  note main = output_buffer_write_policy
  have lens: "64 < length X" "64 < length Y" "length ''ls'' \<le> 64"
    by (simp_all only: X_def Y_def length_replicate) simp_all
  have ob0: "\<not> ob_closed ob0" "buffer ob0 = []" "frames_sent ob0 = []" "flush_task ob0 = None"
    "flush_interval ob0 = 8 / 1000"
    by (simp_all add: ob0_def output_buffer_init_def DEFAULT_FLUSH_INTERVAL_MS_def)
  have a: "frames_sent (ob_write ob0 0 ''ls'') = [''ls'']"
    using main [of ob0 "''ls''" 0 0 0 1, THEN conjunct1] ob0 lens by simp
  have b: "frames_sent (ob_write ob0 0 X) = [] \<and> buffer (ob_write ob0 0 X) = [X]
      \<and> flush_task (ob_write ob0 0 X) = Some (Sleeping (8 / 1000))"
    using main [of ob0 X 0 0 0 1, THEN conjunct1] ob0 lens by simp
  have open1: "\<not> ob_closed (ob_write ob0 0 X)"
    using ob0 lens by (simp add: ob_write_def Let_def)
  have c: "run_timers (ob_write ob0 0 X) (7 / 1000) = ob_write ob0 0 X"
    using main [of "ob_write ob0 0 X" X 0 "8 / 1000" "7 / 1000" 1, THEN conjunct1] open1 b
    by simp
  have d: "frames_sent (ob_write (ob_write ob0 0 X) (4 / 1000) Y) = []
      \<and> buffer (ob_write (ob_write ob0 0 X) (4 / 1000) Y) = [X, Y]
      \<and> flush_task (ob_write (ob_write ob0 0 X) (4 / 1000) Y) = Some (Sleeping (8 / 1000))"
    using main [of "ob_write ob0 0 X" Y "4 / 1000" 0 0 1, THEN conjunct1] open1 b lens by simp
  have open2: "\<not> ob_closed (ob_write (ob_write ob0 0 X) (4 / 1000) Y)"
    using open1 b lens by (simp add: ob_write_def Let_def)
  have e: "frames_sent (run_timers (ob_write (ob_write ob0 0 X) (4 / 1000) Y) (8 / 1000)) = [X @ Y]"
    using main [of "ob_write (ob_write ob0 0 X) (4 / 1000) Y" X 0 "8 / 1000" "8 / 1000" 1,
        THEN conjunct1] open2 d
    by simp
  have f: "frames_sent (flush (ob_write ob0 0 X)) = [X] \<and> flush_task (flush (ob_write ob0 0 X)) = None"
    using main [of "ob_write ob0 0 X" X 0 0 0 1, THEN conjunct1] open1 b by simp
  from ob0(1) a b c e f show ?thesis
    unfolding ob0_def X_def Y_def by (simp only: simp_thms)
qed


section \<open>Rounding to the nearest double\<close>

lemma rhe_of_int: "round_half_even (of_int m) = m"
  by (simp add: round_half_even_def)

lemma rhe_lower: "of_int m \<le> r \<Longrightarrow> m \<le> round_half_even r"
proof -
  assume "of_int m \<le> r"
  then have "m \<le> \<lfloor>r\<rfloor>" by (simp add: le_floor_iff)
  then show ?thesis by (simp add: round_half_even_def Let_def)
qed

lemma rhe_upper: "r \<le> of_int m \<Longrightarrow> round_half_even r \<le> m"
proof -
  assume a: "r \<le> of_int m"
  show ?thesis
  proof (cases "r = of_int \<lfloor>r\<rfloor>")
    case True
    then have "round_half_even r = \<lfloor>r\<rfloor>"
      by (metis rhe_of_int)
    with a show ?thesis by (simp add: floor_le_iff)
  next
    case False
    with of_int_floor_le [of r] have "of_int \<lfloor>r\<rfloor> < r" by linarith
    with a have "of_int \<lfloor>r\<rfloor> < (of_int m :: real)" by linarith
    then have "\<lfloor>r\<rfloor> < m" by simp
    then show ?thesis by (simp add: round_half_even_def Let_def)
  qed
qed

lemma ulp_search_ge: "- 1074 \<le> ulp_search j a"
  by (induction j) simp_all

lemma ulp_search_lower: "- 1074 < ulp_search j a \<Longrightarrow> 2 powi (ulp_search j a + 52) \<le> a"
  by (induction j) (simp_all split: if_splits)

lemma ulp_exponent_ge: "- 1074 \<le> ulp_exponent a"
  by (simp add: ulp_exponent_def ulp_search_ge)

lemma ulp_exponent_lower: "- 1074 < ulp_exponent a \<Longrightarrow> 2 powi (ulp_exponent a + 52) \<le> a"
  unfolding ulp_exponent_def by (rule ulp_search_lower)

lemma two_powi_pos: "0 < (2::real) powi k"
  by (simp add: zero_less_power_int)

lemma dyadic_mult:
  "k \<le> j \<Longrightarrow> (of_int (m * 2 ^ nat (j - k)) :: real) * 2 powi k = of_int m * 2 powi j"
proof -
  assume kj: "k \<le> j"
  have "(2::real) powi j = 2 powi (k + (j - k))" by simp
  also have "\<dots> = 2 powi k * 2 powi (j - k)" by (rule power_int_add) simp
  also from kj have "(2::real) powi (j - k) = 2 ^ nat (j - k)"
    by (simp add: power_int_nonneg_exp)
  finally show ?thesis by simp
qed

lemma dyadic_div:
  "k \<le> j \<Longrightarrow> of_int m * 2 powi j / 2 powi k = (of_int (m * 2 ^ nat (j - k)) :: real)"
  using dyadic_mult [of k j m] two_powi_pos [of k]
  by (simp add: field_simps del: of_int_mult of_int_power)

lemma rhe_0: "round_half_even 0 = 0"
  using rhe_of_int [of 0] by simp

lemma round_double_unfold:
  "round_double x =
     (if 2 ^ 1024 \<le> \<bar>of_int (round_half_even (x / 2 powi ulp_exponent \<bar>x\<bar>)) * (2::real) powi ulp_exponent \<bar>x\<bar>\<bar>
      then (if 0 < x then PInf else NInf)
      else Fin (of_int (round_half_even (x / 2 powi ulp_exponent \<bar>x\<bar>)) * 2 powi ulp_exponent \<bar>x\<bar>))"
  by (simp add: round_double_def Let_def)

lemma round_double_lower:
  assumes m: "0 \<le> m" "m \<le> 2 ^ 53" and j: "- 1074 \<le> j"
    and le: "of_int m * 2 powi j \<le> x"
  shows "fge (round_double x) (of_int m * 2 powi j)"
proof -
  define c where "c = of_int m * (2::real) powi j"
  define k where "k = ulp_exponent \<bar>x\<bar>"
  define u where "u = (2::real) powi k"
  define r where "r = of_int (round_half_even (x / u)) * u"
  have u: "0 < u" unfolding u_def by (rule two_powi_pos)
  have c0: "0 \<le> c" using m(1) two_powi_pos [of j] by (simp add: c_def)
  from le have le': "c \<le> x" by (simp add: c_def)
  with c0 have x0: "0 \<le> x" by simp
  have cr: "c \<le> r"
  proof (cases "k \<le> j")
    case True
    have "c / u \<le> x / u"
      using le' u by (simp only: divide_right_mono less_imp_le)
    then have "of_int (m * 2 ^ nat (j - k)) \<le> x / u"
      unfolding c_def u_def by (simp only: dyadic_div [OF True])
    then have "m * 2 ^ nat (j - k) \<le> round_half_even (x / u)" by (rule rhe_lower)
    then have "(of_int (m * 2 ^ nat (j - k)) :: real) \<le> of_int (round_half_even (x / u))"
      by (simp only: of_int_le_iff)
    then have "of_int (m * 2 ^ nat (j - k)) * u \<le> r"
      unfolding r_def using u by (simp only: mult_le_cancel_right_pos)
    then show ?thesis unfolding u_def c_def by (simp only: dyadic_mult [OF True])
  next
    case False
    then have jk: "j + 1 \<le> k" by simp
    with j have "- 1074 < k" by simp
    then have "2 powi (k + 52) \<le> \<bar>x\<bar>"
      unfolding k_def by (rule ulp_exponent_lower)
    with x0 have big: "2 powi (k + 52) \<le> x" by simp
    have pw: "(2::real) powi (k + 52) = 2 ^ 52 * u"
      by (simp add: power_int_add u_def)
    with big u have "of_int (2 ^ 52) \<le> x / u"
      by (simp add: pos_le_divide_eq)
    then have "2 ^ 52 \<le> round_half_even (x / u)" by (rule rhe_lower)
    then have "(of_int (2 ^ 52) :: real) \<le> of_int (round_half_even (x / u))"
      by (simp only: of_int_le_iff)
    then have "of_int (2 ^ 52) * u \<le> r"
      unfolding r_def using u by (simp only: mult_le_cancel_right_pos)
    moreover have "c \<le> of_int (2 ^ 52) * u"
    proof -
      have "c \<le> 2 ^ 53 * 2 powi j"
        unfolding c_def using m(2) two_powi_pos [of j] by (simp add: mult_right_mono)
      also have "\<dots> = 2 ^ 52 * 2 powi (j + 1)"
        by (simp add: power_int_add)
      also have "\<dots> \<le> 2 ^ 52 * u"
        unfolding u_def using jk by (simp add: power_int_increasing)
      finally show ?thesis by simp
    qed
    ultimately show ?thesis by linarith
  qed
  have rd: "round_double x = (if 2 ^ 1024 \<le> \<bar>r\<bar> then (if 0 < x then PInf else NInf) else Fin r)"
    unfolding r_def u_def k_def by (rule round_double_unfold)
  show ?thesis
  proof (cases "2 ^ 1024 \<le> \<bar>r\<bar>")
    case True
    have "x \<noteq> 0"
    proof
      assume "x = 0"
      then have "r = 0" by (simp add: r_def rhe_0)
      with True show False by simp
    qed
    with x0 have "0 < x" by simp
    with True rd show ?thesis by simp
  next
    case False
    with rd cr show ?thesis by (simp add: c_def)
  qed
qed

lemma round_double_upper:
  assumes x: "0 \<le> x" and m: "m \<le> 2 ^ 53" and j: "- 1074 \<le> j"
    and le: "x \<le> of_int m * 2 powi j" and fin: "of_int m * 2 powi j < (2::real) ^ 1024"
  shows "\<exists>r. round_double x = Fin r \<and> 0 \<le> r \<and> r \<le> of_int m * 2 powi j"
proof -
  define c where "c = of_int m * (2::real) powi j"
  define k where "k = ulp_exponent \<bar>x\<bar>"
  define u where "u = (2::real) powi k"
  define r where "r = of_int (round_half_even (x / u)) * u"
  have u: "0 < u" unfolding u_def by (rule two_powi_pos)
  from le have le': "x \<le> c" by (simp add: c_def)
  have "of_int 0 \<le> x / u" using x u by simp
  then have "0 \<le> round_half_even (x / u)" by (rule rhe_lower)
  then have r0: "0 \<le> r" using u by (simp add: r_def)
  have rc: "r \<le> c"
  proof (cases "k \<le> j")
    case True
    have "x / u \<le> c / u"
      using le' u by (simp only: divide_right_mono less_imp_le)
    then have "x / u \<le> of_int (m * 2 ^ nat (j - k))"
      unfolding c_def u_def by (simp only: dyadic_div [OF True])
    then have "round_half_even (x / u) \<le> m * 2 ^ nat (j - k)" by (rule rhe_upper)
    then have "(of_int (round_half_even (x / u)) :: real) \<le> of_int (m * 2 ^ nat (j - k))"
      by (simp only: of_int_le_iff)
    then have "r \<le> of_int (m * 2 ^ nat (j - k)) * u"
      unfolding r_def using u by (simp only: mult_le_cancel_right_pos)
    then show ?thesis unfolding u_def c_def by (simp only: dyadic_mult [OF True])
  next
    case False
    then have jk: "j + 1 \<le> k" by simp
    with j have "- 1074 < k" by simp
    then have "2 powi (k + 52) \<le> \<bar>x\<bar>"
      unfolding k_def by (rule ulp_exponent_lower)
    with x have big: "2 powi (k + 52) \<le> x" by simp
    have pw: "(2::real) powi (k + 52) = 2 ^ 52 * u"
      by (simp add: power_int_add u_def)
    have "c \<le> 2 ^ 53 * 2 powi j"
      unfolding c_def using m two_powi_pos [of j] by (simp add: mult_right_mono)
    also have "\<dots> = 2 ^ 52 * 2 powi (j + 1)"
      by (simp add: power_int_add)
    also have "\<dots> \<le> 2 ^ 52 * u"
      unfolding u_def using jk by (simp add: power_int_increasing)
    finally have "c \<le> 2 ^ 52 * u" .
    with big le' pw have eq: "x = 2 ^ 52 * u" and xc: "x = c" by linarith+
    from eq u have "x / u = of_int (2 ^ 52)" by simp
    then have "round_half_even (x / u) = 2 ^ 52" by (simp only: rhe_of_int)
    then have "r = x" using eq by (simp add: r_def)
    with xc show ?thesis by simp
  qed
  have rd: "round_double x = (if 2 ^ 1024 \<le> \<bar>r\<bar> then (if 0 < x then PInf else NInf) else Fin r)"
    unfolding r_def u_def k_def by (rule round_double_unfold)
  from r0 rc fin have "\<not> 2 ^ 1024 \<le> \<bar>r\<bar>" by (simp add: c_def)
  with rd r0 rc show ?thesis by (simp add: c_def)
qed

lemma round_double_nat: "n \<le> 2 ^ 53 \<Longrightarrow> round_double (real n) = Fin (real n)"
proof -
  assume n: "n \<le> 2 ^ 53"
  then have m: "int n \<le> 2 ^ 53" by (metis of_nat_le_iff of_nat_numeral of_nat_power)
  have "(real n) < 2 ^ 1024"
  proof -
    have "real n \<le> 2 ^ 53" using n by (metis of_nat_le_iff of_nat_numeral of_nat_power)
    also have "\<dots> < (2::real) ^ 1024" by simp
    finally show ?thesis .
  qed
  with round_double_upper [of "real n" "int n" 0] m
  obtain r where r: "round_double (real n) = Fin r" "r \<le> real n" by auto
  from round_double_lower [of "int n" 0 "real n"] m r(1) have "real n \<le> r" by simp
  with r show ?thesis by simp
qed


section \<open>The rate limiter\<close>

lemma round_double_0: "round_double 0 = Fin 0"
  using round_double_nat [of 0] by simp

lemma int_to_float_small:
  "0 \<le> i \<Longrightarrow> i \<le> 2 ^ 53 \<Longrightarrow> int_to_float i = Inr (Fin (of_int i))"
proof -
  assume i: "0 \<le> i" "i \<le> 2 ^ 53"
  then have "nat i \<le> 2 ^ 53" by (simp add: nat_le_iff)
  from round_double_nat [OF this] i(1) show ?thesis
    by (simp add: int_to_float_def)
qed

lemma round_double_ge:
  "0 \<le> m \<Longrightarrow> m \<le> 2 ^ 53 \<Longrightarrow> of_int m \<le> x \<Longrightarrow> fge (round_double x) (of_int m)"
  using round_double_lower [of m 0 x] by simp

lemma fmul_fge:
  assumes "fge a c" "0 \<le> c" "0 < y" "0 \<le> m" "m \<le> 2 ^ 53" "of_int m \<le> c * y"
  shows "fge (fmul a (Fin y)) (of_int m)"
proof (cases a)
  case (Fin e)
  with assms(1) have "c \<le> e" by simp
  with assms(3) have "c * y \<le> e * y" by (simp add: mult_right_mono)
  with assms(6) have "of_int m \<le> e * y" by linarith
  with assms(4,5) show ?thesis by (simp add: Fin round_double_ge)
next
  case PInf
  with assms(3) show ?thesis by simp
next
  case NInf
  with assms(1) show ?thesis by simp
next
  case NaN
  with assms(1) show ?thesis by simp
qed

lemma fadd_fge:
  assumes "fge b c" "0 \<le> m" "m \<le> 2 ^ 53" "of_int m \<le> s + c"
  shows "fge (fadd (Fin s) b) (of_int m)"
proof (cases b)
  case (Fin p)
  with assms(1) have "c \<le> p" by simp
  with assms(4) have "of_int m \<le> s + p" by linarith
  with assms(2,3) show ?thesis by (simp add: Fin round_double_ge)
next
  case PInf
  then show ?thesis by simp
next
  case NInf
  with assms(1) show ?thesis by simp
next
  case NaN
  with assms(1) show ?thesis by simp
qed

lemma fge_not_lt: "fge f (of_int i) \<Longrightarrow> \<not> float_lt_int f i"
  by (cases f) simp_all


lemma acquire_full_bucket:
  assumes "t0 \<le> t1"
  shows "acquire \<lparr>rate = IntN 100, burst = 500, tokens = FloatN (Fin 500), last_update = t0\<rparr> t1 500 =
    (Inr True, \<lparr>rate = IntN 100, burst = 500, tokens = IntN 0, last_update = t1\<rparr>)"
proof -
  let ?rl = "\<lparr>rate = IntN 100, burst = 500, tokens = FloatN (Fin 500), last_update = t0\<rparr>"
  define elapsed where "elapsed = round_double (t1 - t0)"
  have e: "fge elapsed 0"
    unfolding elapsed_def using round_double_ge [of 0 "t1 - t0"] assms by simp
  have p: "fge (fmul elapsed (Fin 100)) 0"
    using fmul_fge [OF e, of 100 0] by simp
  have "fge (fadd (Fin 500) (fmul elapsed (Fin 100))) (of_int 500)"
    by (rule fadd_fge [OF p]) simp_all
  then have cap: "\<not> float_lt_int (fadd (Fin 500) (fmul elapsed (Fin 100))) 500"
    by (rule fge_not_lt)
  have rate: "int_to_float 100 = Inr (Fin 100)"
    using int_to_float_small [of 100] by simp
  have "refill ?rl t1 = Inr (IntN 500)"
    using cap by (simp add: refill_def rate elapsed_def [symmetric])
  then show ?thesis by (simp add: acquire_def)
qed








section \<open>Terminal input\<close>

lemma binary_input_outcome:
  "handle_binary_input ctx t now input_bytes =
     (if max_input_size ctx < int (length input_bytes)
      then Inr (ctx\<lparr>json_sent := json_sent ctx @ [error_message ''Input too large'']\<rparr>)
      else
        (case fst (acquire (rate_limiter ctx) t (int (length input_bytes))) of
           Inl e \<Rightarrow> Inl e
         | Inr ok \<Rightarrow>
             if ok
             then Inr (write_to_pty
                    (ctx\<lparr>rate_limiter :=
                           snd (acquire (rate_limiter ctx) t (int (length input_bytes)))\<rparr>)
                    now input_bytes)
             else Inr (ctx\<lparr>rate_limiter :=
                             snd (acquire (rate_limiter ctx) t (int (length input_bytes))),
                           json_sent := json_sent ctx @ [error_message ''Rate limit exceeded'']\<rparr>)))"
  by (simp add: handle_binary_input_def split_beta Let_def split: sum.splits)

lemma json_input_outcome:
  "encode_utf8 d = Inr input_bytes \<Longrightarrow>
   handle_input ctx t now (Some d) =
     (if max_input_size ctx < int (length d)
      then Inr (ctx\<lparr>json_sent := json_sent ctx @ [error_message ''Input too large'']\<rparr>)
      else if d = [] then Inr ctx
      else
        (case fst (acquire (rate_limiter ctx) t (int (length input_bytes))) of
           Inl e \<Rightarrow> Inl e
         | Inr ok \<Rightarrow>
             if ok
             then Inr (write_to_pty
                    (ctx\<lparr>rate_limiter :=
                           snd (acquire (rate_limiter ctx) t (int (length input_bytes)))\<rparr>)
                    now input_bytes)
             else Inr (ctx\<lparr>rate_limiter :=
                             snd (acquire (rate_limiter ctx) t (int (length input_bytes)))\<rparr>)))"
  by (simp add: handle_input_def split_beta Let_def split: sum.splits)

lemma acquire_empty_bucket_same_instant:
  "acquire \<lparr>rate = IntN 100, burst = 500, tokens = IntN 0, last_update = 0\<rparr> 0 1 =
     (Inr False, \<lparr>rate = IntN 100, burst = 500, tokens = FloatN (Fin 0), last_update = 0\<rparr>)"
proof -
  have conv: "int_to_float 0 = Inr (Fin 0)" "int_to_float 100 = Inr (Fin 100)"
    using int_to_float_small [of 0] int_to_float_small [of 100] by simp_all
  have "refill \<lparr>rate = IntN 100, burst = 500, tokens = IntN 0, last_update = 0\<rparr> 0 =
      Inr (FloatN (Fin 0))"
    by (simp add: refill_def conv round_double_0)
  then show ?thesis by (simp add: acquire_def)
qed

text \<open>
  Claim C4 at a concrete input. A new connection accepts 500 bytes of binary input,
  which empties its token bucket, and then receives the one-byte input \<open>a\<close> at the same
  clock reading. On the binary path the rejection is reported (\<open>Rate limit exceeded\<close>)
  and nothing is written to the PTY. On the JSON path
  (\<open>{"type": "input", "data": "a"}\<close>) nothing is written to the PTY either, but nothing is
  sent to the client: only the rate limiter has recorded the check.
\<close>

theorem json_input_rate_limit_unreported:
  "new_context 1 example_session 0 False = Inr fresh_context
 \<and> handle_binary_input fresh_context 0 0 (replicate 500 (CHR ''x'')) = Inr exhausted_context
 \<and> json_sent exhausted_context = []
 \<and> tokens (rate_limiter exhausted_context) = IntN 0
 \<and> encode_utf8 [97] = Inr ''a''
 \<and> handle_binary_input exhausted_context 0 1 ''a'' =
     Inr (exhausted_context
            \<lparr>rate_limiter :=
               \<lparr>rate = IntN 100, burst = 500, tokens = FloatN (Fin 0), last_update = 0\<rparr>,
             json_sent := [error_message ''Rate limit exceeded'']\<rparr>)
 \<and> handle_input exhausted_context 0 1 (Some [97]) =
     Inr (exhausted_context
            \<lparr>rate_limiter :=
               \<lparr>rate = IntN 100, burst = 500, tokens = FloatN (Fin 0), last_update = 0\<rparr>\<rparr>)"
proof -
  have enc: "encode_utf8 [97] = Inr ''a''"
    by (simp add: utf8_code_point_def char_of_def bit_Suc_0_iff)
  have len: "int (length (replicate 500 (CHR ''x''))) = 500"
    by (simp only: length_replicate)
  have five: "int_to_float 500 = Inr (Fin 500)"
    using int_to_float_small [of 500] by simp
  have fresh: "new_context 1 example_session 0 False = Inr fresh_context"
    by (simp add: new_context_def rate_limiter_init_def DEFAULT_RATE_def DEFAULT_BURST_def
        MAX_INPUT_SIZE_def five fresh_context_def)
  have pty: "pty_manager example_session = example_pty"
    by (simp add: example_session_def new_session_def)
  have first: "handle_binary_input fresh_context 0 0 (replicate 500 (CHR ''x'')) =
      Inr exhausted_context"
    unfolding binary_input_outcome len
    by (simp add: fresh_context_def exhausted_context_def acquire_full_bucket [of 0 0]
        write_to_pty_def touch_def pty)
  have rl: "rate_limiter exhausted_context =
      \<lparr>rate = IntN 100, burst = 500, tokens = IntN 0, last_update = 0\<rparr>"
    and size: "max_input_size exhausted_context = 4096"
    and sent: "json_sent exhausted_context = []"
    by (simp_all add: exhausted_context_def fresh_context_def)
  have bin: "handle_binary_input exhausted_context 0 1 ''a'' =
     Inr (exhausted_context
            \<lparr>rate_limiter :=
               \<lparr>rate = IntN 100, burst = 500, tokens = FloatN (Fin 0), last_update = 0\<rparr>,
             json_sent := [error_message ''Rate limit exceeded'']\<rparr>)"
    unfolding binary_input_outcome
    by (simp add: rl size sent acquire_empty_bucket_same_instant)
  have js: "handle_input exhausted_context 0 1 (Some [97]) =
     Inr (exhausted_context
            \<lparr>rate_limiter :=
               \<lparr>rate = IntN 100, burst = 500, tokens = FloatN (Fin 0), last_update = 0\<rparr>\<rparr>)"
    unfolding json_input_outcome [OF enc]
    by (simp add: rl size acquire_empty_bucket_same_instant)
  from fresh first sent rl enc bin js show ?thesis by simp
qed

end
